theory Spec2Isabelle
  imports Main "HOL-Library.Sublist" "HOL-Library.Multiset"
begin

section \<open>JavaScript values used by the deal-context pipeline\<close>

text \<open>
  Strings are lists of code units; a \<^typ>\<open>char\<close> is read as the code unit with the same
  number (Latin-1), so the model covers text whose code units are below 256. A property
  that may be \<^verbatim>\<open>undefined\<close> or \<^verbatim>\<open>null\<close> is a \<^typ>\<open>string option\<close>. HubSpot returns
  every property value as a string or null.
\<close>

type_synonym props = "string \<rightharpoonup> string"

text \<open>\<^verbatim>\<open>x || d\<close> on a string-or-undefined value: the empty string is falsy.\<close>

definition truthy :: "string option \<Rightarrow> bool" where
  "truthy x = (case x of None \<Rightarrow> False | Some s \<Rightarrow> s \<noteq> [])"

definition or_else :: "string option \<Rightarrow> string \<Rightarrow> string" where
  "or_else x d = (case x of None \<Rightarrow> d | Some s \<Rightarrow> if s = [] then d else s)"

definition nl :: char where
  "nl = CHR 0x0A"

definition is_digit :: "char \<Rightarrow> bool" where
  "is_digit c = (c \<in> set ''0123456789'')"

definition is_word :: "char \<Rightarrow> bool" where
  "is_word c = (c \<in> set ''abcdefghijklmnopqrstuvwxyzABCDEFGHIJKLMNOPQRSTUVWXYZ0123456789_'')"

text \<open>\<^verbatim>\<open>\s\<close>: tab, line feed, vertical tab, form feed, carriage return, space, no-break space.\<close>

definition is_space :: "char \<Rightarrow> bool" where
  "is_space c = (c \<in> set [CHR 0x09, CHR 0x0A, CHR 0x0B, CHR 0x0C, CHR 0x0D, CHR 0x20, CHR 0xA0])"

text \<open>Line terminators: what \<^verbatim>\<open>.\<close> refuses and what \<^verbatim>\<open>^\<close>, \<^verbatim>\<open>$\<close> look at under the m flag.\<close>

definition is_lt :: "char \<Rightarrow> bool" where
  "is_lt c = (c = CHR 0x0A \<or> c = CHR 0x0D)"

section \<open>Regular expressions with backtracking priorities\<close>

text \<open>
  The patterns of the source are values of \<open>rx\<close>. Every quantifier of the source is applied
  to a single character class, so \<open>Rep lo hi greedy p\<close> repeats the class \<open>p\<close> between
  \<open>lo\<close> and \<open>hi\<close> times (\<open>None\<close>: unbounded). \<open>Bol\<close> and \<open>Eol\<close> are \<^verbatim>\<open>^\<close> and \<^verbatim>\<open>$\<close>
  under the m flag, \<open>Eoi\<close> is \<^verbatim>\<open>$\<close> without it.
\<close>

datatype rx =
    Lit string
  | Cls "char \<Rightarrow> bool"
  | Rep nat "nat option" bool "char \<Rightarrow> bool"
  | Cat "rx list"
  | Alt "rx list"
  | Bol
  | Eol
  | Eoi

text \<open>A position: the code unit before it (if any) and the text after it.\<close>

type_synonym pos = "char option \<times> string"

fun lit :: "string \<Rightarrow> char option \<Rightarrow> string \<Rightarrow> pos list" where
  "lit [] pv s = [(pv, s)]"
| "lit (a # as) pv [] = []"
| "lit (a # as) pv (c # cs) = (if a = c then lit as (Some c) cs else [])"

fun rep :: "(char \<Rightarrow> bool) \<Rightarrow> bool \<Rightarrow> nat \<Rightarrow> nat option \<Rightarrow> char option \<Rightarrow> string \<Rightarrow> pos list" where
  "rep p g lo hi pv [] = (if lo = 0 then [(pv, [])] else [])"
| "rep p g lo hi pv (c # cs) =
     (let stop = (if lo = 0 then [(pv, c # cs)] else []);
          more = (if p c \<and> hi \<noteq> Some 0
                  then rep p g (lo - 1) (map_option (\<lambda>h. h - 1) hi) (Some c) cs else [])
      in if g then more @ stop else stop @ more)"

text \<open>
  \<open>ends r (pv, s)\<close> lists the positions where a match of \<open>r\<close> starting at \<open>(pv, s)\<close> can
  end, in the order a backtracking matcher tries them; the head is the match it reports.
\<close>

fun ends :: "rx \<Rightarrow> pos \<Rightarrow> pos list" where
  "ends (Lit w) (pv, s) = lit w pv s"
| "ends (Cls p) (pv, s) = (case s of [] \<Rightarrow> [] | c # cs \<Rightarrow> if p c then [(Some c, cs)] else [])"
| "ends (Rep lo hi g p) (pv, s) = rep p g lo hi pv s"
| "ends (Cat []) st = [st]"
| "ends (Cat (r # rs)) st = concat (map (ends (Cat rs)) (ends r st))"
| "ends (Alt []) st = []"
| "ends (Alt (r # rs)) st = ends r st @ ends (Alt rs) st"
| "ends Bol (pv, s) = (case pv of None \<Rightarrow> [(pv, s)] | Some c \<Rightarrow> if is_lt c then [(pv, s)] else [])"
| "ends Eol (pv, s) = (case s of [] \<Rightarrow> [(pv, s)] | c # cs \<Rightarrow> if is_lt c then [(pv, s)] else [])"
| "ends Eoi (pv, s) = (case s of [] \<Rightarrow> [(pv, s)] | c # cs \<Rightarrow> [])"

text \<open>
  \<^verbatim>\<open>String.prototype.replace\<close> with the g flag: scan from the left; at a match, emit the
  replacement (a function of the matched text) and go on after it; after an empty match,
  copy one code unit.
\<close>

function replaceAll :: "rx \<Rightarrow> (string \<Rightarrow> string) \<Rightarrow> char option \<Rightarrow> string \<Rightarrow> string" where
  "replaceAll r f pv s =
     (case ends r (pv, s) of
        [] \<Rightarrow> (case s of [] \<Rightarrow> [] | c # cs \<Rightarrow> c # replaceAll r f (Some c) cs)
      | e # _ \<Rightarrow>
          if length (snd e) < length s
          then f (take (length s - length (snd e)) s) @ replaceAll r f (fst e) (snd e)
          else f [] @ (case s of [] \<Rightarrow> [] | c # cs \<Rightarrow> c # replaceAll r f (Some c) cs))"
  by pat_completeness auto
termination
  by (relation "measure (\<lambda>(r, f, pv, s). length s)") auto

text \<open>\<^verbatim>\<open>String.prototype.match\<close> with the g flag: the matched texts, from the left.\<close>

function matchAll :: "rx \<Rightarrow> char option \<Rightarrow> string \<Rightarrow> string list" where
  "matchAll r pv s =
     (case ends r (pv, s) of
        [] \<Rightarrow> (case s of [] \<Rightarrow> [] | c # cs \<Rightarrow> matchAll r (Some c) cs)
      | e # _ \<Rightarrow>
          if length (snd e) < length s
          then take (length s - length (snd e)) s # matchAll r (fst e) (snd e)
          else [] # (case s of [] \<Rightarrow> [] | c # cs \<Rightarrow> matchAll r (Some c) cs))"
  by pat_completeness auto
termination
  by (relation "measure (\<lambda>(r, pv, s). length s)") auto

text \<open>\<^verbatim>\<open>replace\<close> without the g flag: only the leftmost match is replaced.\<close>

fun replaceFirst :: "rx \<Rightarrow> (string \<Rightarrow> string) \<Rightarrow> char option \<Rightarrow> string \<Rightarrow> string" where
  "replaceFirst r f pv s =
     (case ends r (pv, s) of
        e # _ \<Rightarrow> f (take (length s - length (snd e)) s) @ snd e
      | [] \<Rightarrow> (case s of [] \<Rightarrow> [] | c # cs \<Rightarrow> c # replaceFirst r f (Some c) cs))"

declare replaceAll.simps [simp del]
declare matchAll.simps [simp del]
declare replaceFirst.simps [simp del]

text \<open>\<^verbatim>\<open>String.prototype.trim\<close>.\<close>

definition trim :: "string \<Rightarrow> string" where
  "trim s = rev (dropWhile is_space (rev (dropWhile is_space s)))"

section \<open>What the browser provides\<close>

text \<open>
  Two computations are the browser's and not the repository's: \<^verbatim>\<open>decodeHtmlEntities\<close>
  (lines 1229-1233) assigns the text to the \<^verbatim>\<open>innerHTML\<close> of a textarea and reads its
  \<^verbatim>\<open>value\<close> back, and the duration label of a call (line 1370) is floating-point
  arithmetic on \<^verbatim>\<open>parseFloat(duration)\<close>. They are parameters of the model:
  \<open>decodeEntities\<close> is the decoder, \<open>minutes_of d\<close> and \<open>seconds_of d\<close> are the texts of
  \<^verbatim>\<open>Math.floor(parseFloat(d) / 60)\<close> and \<^verbatim>\<open>Math.floor(parseFloat(d) % 60)\<close>.
\<close>

record browser =
  decodeEntities :: "string \<Rightarrow> string"
  minutes_of :: "string \<Rightarrow> string"
  seconds_of :: "string \<Rightarrow> string"

section \<open>Text sanitization (stripHtml, lines 1199-1227)\<close>

definition not_gt :: "char \<Rightarrow> bool" where
  "not_gt c = (c \<noteq> CHR ''>'')"

definition any_char :: "char \<Rightarrow> bool" where
  "any_char c = True"

definition dot :: "char \<Rightarrow> bool" where
  "dot c = (\<not> is_lt c)"

definition spaces :: rx where
  "spaces = Rep 0 None True is_space"

definition spaces1 :: rx where
  "spaces1 = Rep 1 None True is_space"

definition opt :: "(char \<Rightarrow> bool) \<Rightarrow> rx" where
  "opt p = Rep 0 (Some 1) True p"

definition https :: rx where
  "https = Cat [Lit ''http'', opt (\<lambda>c. c = CHR ''s''), Lit ''://'']"

text \<open>\<^verbatim>\<open>/<[^>]+>/g\<close>\<close>
definition rx_tag :: rx where
  "rx_tag = Cat [Lit ''<'', Rep 1 None True not_gt, Lit ''>'']"

text \<open>\<^verbatim>\<open>/<https?:\/\/[^>]+>/g\<close>, also the pattern of line 1209, whose group is the match
  without its first and last code unit.\<close>
definition rx_wrapped_url :: rx where
  "rx_wrapped_url = Cat [Lit ''<'', https, Rep 1 None True not_gt, Lit ''>'']"

text \<open>\<^verbatim>\<open>/https?:\/\/\S+/g\<close>\<close>
definition rx_bare_url :: rx where
  "rx_bare_url = Cat [https, Rep 1 None True (\<lambda>c. \<not> is_space c)]"

definition addr_char :: "char \<Rightarrow> bool" where
  "addr_char c = (is_word c \<or> c = CHR ''.'' \<or> c = CHR ''-'')"

text \<open>\<^verbatim>\<open>/^\s*[\w.-]+@[\w.-]+\.\w+\s*$/gm\<close>\<close>
definition rx_email_line :: rx where
  "rx_email_line = Cat [Bol, spaces, Rep 1 None True addr_char, Lit ''@'',
     Rep 1 None True addr_char, Lit ''.'', Rep 1 None True is_word, spaces, Eol]"

definition sep_char :: "char \<Rightarrow> bool" where
  "sep_char c = (c = CHR ''-'' \<or> c = CHR ''.'' \<or> is_space c)"

text \<open>\<^verbatim>\<open>/^\s*\(?\d{3}\)?[-.\s]?\d{3}[-.\s]?\d{4}\s*$/gm\<close>\<close>
definition rx_phone_line :: rx where
  "rx_phone_line = Cat [Bol, spaces, opt (\<lambda>c. c = CHR ''(''), Rep 3 (Some 3) True is_digit,
     opt (\<lambda>c. c = CHR '')''), opt sep_char, Rep 3 (Some 3) True is_digit, opt sep_char,
     Rep 4 (Some 4) True is_digit, spaces, Eol]"

text \<open>\<^verbatim>\<open>/On\s+\w{3},\s+\w{3}\s+\d{1,2},\s+\d{4}\s+at\s+[\d:]+\s*[AP]M.*?wrote:.*/gs\<close>\<close>
definition rx_quoted_reply :: rx where
  "rx_quoted_reply = Cat [Lit ''On'', spaces1, Rep 3 (Some 3) True is_word, Lit '','', spaces1,
     Rep 3 (Some 3) True is_word, spaces1, Rep 1 (Some 2) True is_digit, Lit '','', spaces1,
     Rep 4 (Some 4) True is_digit, spaces1, Lit ''at'', spaces1,
     Rep 1 None True (\<lambda>c. is_digit c \<or> c = CHR '':''), spaces,
     Cls (\<lambda>c. c = CHR ''A'' \<or> c = CHR ''P''), Lit ''M'', Rep 0 None False any_char,
     Lit ''wrote:'', Rep 0 None True any_char]"

text \<open>\<^verbatim>\<open>/^\s*>.*$/gm\<close>\<close>
definition rx_quote_line :: rx where
  "rx_quote_line = Cat [Bol, spaces, Lit ''>'', Rep 0 None True dot, Eol]"

text \<open>\<^verbatim>\<open>/^\s*\*?(From|Sent|To|Cc|Subject|Date):\*?\s*.*$/gm\<close>\<close>
definition rx_header_line :: rx where
  "rx_header_line = Cat [Bol, spaces, opt (\<lambda>c. c = CHR ''*''),
     Alt [Lit ''From'', Lit ''Sent'', Lit ''To'', Lit ''Cc'', Lit ''Subject'', Lit ''Date''],
     Lit '':'', opt (\<lambda>c. c = CHR ''*''), spaces, Rep 0 None True dot, Eol]"

text \<open>\<^verbatim>\<open>/\n{3,}/g\<close>, \<^verbatim>\<open>/[ \t]+/g\<close>, \<^verbatim>\<open>/\n\s*\n/g\<close>\<close>
definition rx_newlines3 :: rx where
  "rx_newlines3 = Rep 3 None True (\<lambda>c. c = nl)"

definition rx_blanks :: rx where
  "rx_blanks = Rep 1 None True (\<lambda>c. c = CHR '' '' \<or> c = CHR 0x09)"

definition rx_blank_lines :: rx where
  "rx_blank_lines = Cat [Lit [nl], spaces, Lit [nl]]"

definition erase :: "string \<Rightarrow> string" where
  "erase w = []"

definition unwrap :: "string \<Rightarrow> string" where
  "unwrap w = butlast (tl w)"

definition stripHtml :: "browser \<Rightarrow> string option \<Rightarrow> bool \<Rightarrow> string" where
  "stripHtml b htmlContent preserveUrls =
     (case htmlContent of
        None \<Rightarrow> []
      | Some html \<Rightarrow>
          if html = [] then []
          else
            let clean = replaceAll rx_tag (\<lambda>w. '' '') None html;
                clean = decodeEntities b clean;
                clean = (if \<not> preserveUrls
                         then replaceAll rx_bare_url erase None
                                (replaceAll rx_wrapped_url erase None clean)
                         else replaceAll rx_wrapped_url unwrap None clean);
                clean = replaceAll rx_email_line erase None clean;
                clean = replaceAll rx_phone_line erase None clean;
                clean = replaceAll rx_quoted_reply erase None clean;
                clean = replaceAll rx_quote_line erase None clean;
                clean = replaceAll rx_header_line erase None clean;
                clean = replaceAll rx_newlines3 (\<lambda>w. [nl, nl]) None clean;
                clean = replaceAll rx_blanks (\<lambda>w. '' '') None clean;
                clean = replaceAll rx_blank_lines (\<lambda>w. [nl, nl]) None clean
            in trim clean)"

section \<open>Timestamps (formatTimestamp, lines 1235-1243)\<close>

fun digit_val :: "char \<Rightarrow> int" where
  "digit_val c = (case find (\<lambda>(d, v). d = c)
       (zip ''0123456789abcdefABCDEF'' [0, 1, 2, 3, 4, 5, 6, 7, 8, 9, 10, 11, 12, 13, 14, 15, 10, 11, 12, 13, 14, 15])
     of Some (d, v) \<Rightarrow> v | None \<Rightarrow> 0)"

definition is_hex :: "char \<Rightarrow> bool" where
  "is_hex c = (c \<in> set ''0123456789abcdefABCDEF'')"

definition digits_val :: "int \<Rightarrow> string \<Rightarrow> int" where
  "digits_val radix ds = foldl (\<lambda>acc c. acc * radix + digit_val c) 0 ds"

text \<open>
  \<^verbatim>\<open>parseInt(s)\<close> with no radix: leading white space and a sign are skipped, a prefix
  \<^verbatim>\<open>0x\<close> selects radix 16, and the longest prefix of digits is read; \<open>None\<close> is NaN. The
  result is the exact integer: JavaScript rounds it to a double, which changes nothing
  below \<open>2^53\<close>.
\<close>

definition parseInt :: "string \<Rightarrow> int option" where
  "parseInt str =
     (let s = dropWhile is_space str;
          neg = (case s of [] \<Rightarrow> False | c # cs \<Rightarrow> c = CHR ''-'');
          s = (case s of [] \<Rightarrow> [] | c # cs \<Rightarrow> if c = CHR ''+'' \<or> c = CHR ''-'' then cs else s);
          hex = (take 2 s = ''0x'' \<or> take 2 s = ''0X'');
          s = (if hex then drop 2 s else s);
          z = takeWhile (if hex then is_hex else is_digit) s;
          n = digits_val (if hex then 16 else 10) z
      in if z = [] then None else Some (if neg then - n else n))"

text \<open>The decimal text of a number that is not negative.\<close>

function show_digits :: "int \<Rightarrow> string" where
  "show_digits n =
     (if n < 10 then [''0123456789'' ! nat n]
      else show_digits (n div 10) @ [''0123456789'' ! nat (n mod 10)])"
  by pat_completeness auto
termination
  by (relation "measure nat") auto

declare show_digits.simps [simp del]

definition show_nat :: "nat \<Rightarrow> string" where
  "show_nat n = show_digits (int n)"

definition pad :: "nat \<Rightarrow> int \<Rightarrow> string" where
  "pad w n = replicate (w - length (show_digits n)) CHR ''0'' @ show_digits n"

text \<open>
  \<^verbatim>\<open>new Date(t).toISOString()\<close> for a time value \<open>t\<close> in range: the civil date of day
  \<open>t div 86400000\<close> in the proleptic Gregorian calendar; years outside 0..9999 are
  written with a sign and six digits.
\<close>

definition toISOString :: "int \<Rightarrow> string" where
  "toISOString t =
     (let days = t div 86400000;
          ms = t mod 86400000;
          z = days + 719468;
          era = z div 146097;
          doe = z - era * 146097;
          yoe = (doe - doe div 1460 + doe div 36524 - doe div 146096) div 365;
          doy = doe - (365 * yoe + yoe div 4 - yoe div 100);
          mp = (5 * doy + 2) div 153;
          d = doy - (153 * mp + 2) div 5 + 1;
          mo = (if mp < 10 then mp + 3 else mp - 9);
          y = yoe + era * 400 + (if mo \<le> 2 then 1 else 0);
          year = (if 0 \<le> y \<and> y \<le> 9999 then pad 4 y
                  else (if y < 0 then ''-'' else ''+'') @ pad 6 \<bar>y\<bar>)
      in year @ ''-'' @ pad 2 mo @ ''-'' @ pad 2 d @ ''T''
         @ pad 2 (ms div 3600000) @ '':'' @ pad 2 (ms div 60000 mod 60) @ '':''
         @ pad 2 (ms div 1000 mod 60) @ ''.'' @ pad 3 (ms mod 1000) @ ''Z'')"

text \<open>\<^verbatim>\<open>replace('T', ' ')\<close>: the first \<^verbatim>\<open>T\<close> only.\<close>

fun replace_T :: "string \<Rightarrow> string" where
  "replace_T [] = []"
| "replace_T (c # cs) = (if c = CHR ''T'' then CHR '' '' # cs else c # replace_T cs)"

text \<open>
  \<^verbatim>\<open>toISOString\<close> throws a RangeError on an invalid date (NaN, or a time value beyond
  8.64e15 in absolute value); the \<^verbatim>\<open>catch\<close> then returns the timestamp text itself.
\<close>

definition formatTimestamp :: "string option \<Rightarrow> string" where
  "formatTimestamp ts =
     (case ts of
        None \<Rightarrow> ''Unknown date''
      | Some t \<Rightarrow>
          if t = [] then ''Unknown date''
          else (case parseInt t of
                  None \<Rightarrow> t
                | Some n \<Rightarrow> if \<bar>n\<bar> > 8640000000000000 then t
                            else replace_T (take 16 (toISOString n))))"

section \<open>CRM objects\<close>

text \<open>
  An object of a HubSpot response: an association edge carries \<open>toObjectId\<close>, a record
  carries \<open>properties\<close>; \<open>engagement_type\<close> is the \<^verbatim>\<open>_engagement_type\<close> tag that
  \<^verbatim>\<open>getAllEngagements\<close> stamps on a record.
\<close>

record crm_object =
  obj_id :: string
  toObjectId :: "int option"
  properties :: "props option"
  engagement_type :: "string option"

text \<open>\<^verbatim>\<open>x.properties || {}\<close>\<close>

definition props_of :: "crm_object \<Rightarrow> props" where
  "props_of x = (case properties x of None \<Rightarrow> Map.empty | Some p \<Rightarrow> p)"

section \<open>URL extraction (lines 1245-1292)\<close>

definition url_char :: "char \<Rightarrow> bool" where
  "url_char c = (\<not> is_space c \<and> c \<notin> set [CHR ''<'', CHR ''>'', CHR 0x22, CHR 0x27])"

definition url_last :: "char \<Rightarrow> bool" where
  "url_last c = (url_char c \<and> c \<noteq> CHR ''.'' \<and> c \<noteq> CHR '','')"

text \<open>\<^verbatim>\<open>/https?:\/\/[^\s<>"']+[^\s<>"'.,]/g\<close>\<close>
definition urlPattern :: rx where
  "urlPattern = Cat [https, Rep 1 None True url_char, Cls url_last]"

definition punct :: "char \<Rightarrow> bool" where
  "punct c = (c \<in> set ''.,;:'')"

text \<open>\<^verbatim>\<open>/[.,;:]+$/\<close>\<close>
definition rx_trailing :: rx where
  "rx_trailing = Cat [Rep 1 None True punct, Eoi]"

text \<open>\<^verbatim>\<open>[...new Set(xs)]\<close>: the first occurrence of each element, in order.\<close>

definition uniq :: "'a list \<Rightarrow> 'a list" where
  "uniq xs = foldl (\<lambda>acc x. if x \<in> set acc then acc else acc @ [x]) [] xs"

definition extractUrlsFromContent :: "string \<Rightarrow> string list" where
  "extractUrlsFromContent content =
     (if content = [] then []
      else uniq (map (replaceFirst rx_trailing erase None) (matchAll urlPattern None content)))"

text \<open>The content and the context label that \<^verbatim>\<open>collectAllUrls\<close> computes for one record.\<close>

definition engagement_content :: "crm_object \<Rightarrow> string" where
  "engagement_content eng =
     (let engType = or_else (engagement_type eng) ''unknown'';
          props = props_of eng
      in if engType = ''emails''
         then or_else (props ''hs_email_text'') (or_else (props ''hs_email_html'') [])
         else if engType = ''notes'' then or_else (props ''hs_note_body'') []
         else if engType = ''calls'' then or_else (props ''hs_call_body'') []
         else if engType = ''meetings'' then or_else (props ''hs_meeting_body'') []
         else if engType = ''tasks'' then or_else (props ''hs_task_body'') []
         else [])"

definition engagement_context :: "crm_object \<Rightarrow> string" where
  "engagement_context eng =
     (let engType = or_else (engagement_type eng) ''unknown'';
          props = props_of eng;
          timestamp = formatTimestamp (props ''hs_timestamp'')
      in if engType = ''emails''
         then ''Email: '' @ or_else (props ''hs_email_subject'') ''(No subject)''
              @ '' ('' @ timestamp @ '')''
         else if engType = ''notes'' then ''Note ('' @ timestamp @ '')''
         else if engType = ''calls''
         then ''Call: '' @ or_else (props ''hs_call_title'') ''Call'' @ '' ('' @ timestamp @ '')''
         else if engType = ''meetings''
         then ''Meeting: '' @ or_else (props ''hs_meeting_title'') ''Meeting''
              @ '' ('' @ timestamp @ '')''
         else if engType = ''tasks''
         then ''Task: '' @ or_else (props ''hs_task_subject'') ''Task'' @ '' ('' @ timestamp @ '')''
         else [])"

text \<open>
  \<^verbatim>\<open>allUrls\<close> is an object used as a dictionary. Its keys are URLs, which begin with
  \<^verbatim>\<open>http\<close>: none is an integer index or a property of \<^verbatim>\<open>Object.prototype\<close>, so
  \<^verbatim>\<open>Object.entries\<close> lists them in insertion order. The model is an association list in
  that order.
\<close>

type_synonym url_index = "(string \<times> string list) list"

text \<open>\<^verbatim>\<open>if (!allUrls[url]) allUrls[url] = []; allUrls[url].push(context)\<close>\<close>

fun push_context :: "string \<Rightarrow> string \<Rightarrow> url_index \<Rightarrow> url_index" where
  "push_context url ctx [] = [(url, [ctx])]"
| "push_context url ctx ((k, cs) # rest) =
     (if k = url then (k, cs @ [ctx]) # rest else (k, cs) # push_context url ctx rest)"

definition collect_one :: "url_index \<Rightarrow> crm_object \<Rightarrow> url_index" where
  "collect_one allUrls eng =
     foldl (\<lambda>acc url. push_context url (engagement_context eng) acc) allUrls
       (extractUrlsFromContent (engagement_content eng))"

definition collectAllUrls :: "crm_object list \<Rightarrow> url_index" where
  "collectAllUrls engagements = foldl collect_one [] engagements"

section \<open>Document assembly (formatDealForClaude, lines 1294-1443)\<close>

text \<open>\<^verbatim>\<open>Array.prototype.join\<close>\<close>

fun join :: "string \<Rightarrow> string list \<Rightarrow> string" where
  "join sep [] = []"
| "join sep [x] = x"
| "join sep (x # y # ys) = x @ sep @ join sep (y # ys)"

text \<open>Lines 1296-1307: the header.\<close>

definition header_lines :: "crm_object \<Rightarrow> string list" where
  "header_lines deal =
     (let dealName = or_else (case properties deal of None \<Rightarrow> None | Some p \<Rightarrow> p ''dealname'')
                       ''Unknown Deal'';
          props = props_of deal
      in [''# Deal: '' @ dealName,
          [nl] @ ''**Amount:** '' @ or_else (props ''amount'') ''N/A'',
          ''**Stage:** '' @ or_else (props ''dealstage'') ''N/A'',
          ''**Created:** '' @ or_else (props ''createdate'') ''N/A'',
          ''**Close Date:** '' @ or_else (props ''closedate'') ''N/A'']
         @ (if truthy (props ''description'')
            then [''**Description:** '' @ or_else (props ''description'') []] else [])
         @ [[]])"

text \<open>Lines 1309-1319.\<close>

definition contact_line :: "crm_object \<Rightarrow> string" where
  "contact_line c =
     (let cp = props_of c;
          name = trim (or_else (cp ''firstname'') [] @ '' '' @ or_else (cp ''lastname'') []);
          name = (if name = [] then ''Unknown'' else name);
          email = or_else (cp ''email'') ''N/A'';
          company = or_else (cp ''company'') []
      in ''- '' @ name @ '' ('' @ email @ '')'' @ (if company \<noteq> [] then '' - '' @ company else []))"

definition contacts_lines :: "crm_object list \<Rightarrow> string list" where
  "contacts_lines contacts =
     (if length contacts > 0
      then [''## Associated Contacts''] @ map contact_line contacts @ [[]] else [])"

text \<open>Lines 1321-1331.\<close>

definition company_line :: "crm_object \<Rightarrow> string" where
  "company_line c =
     (let cp = props_of c;
          name = or_else (cp ''name'') ''Unknown'';
          domain = or_else (cp ''domain'') [];
          industry = or_else (cp ''industry'') []
      in ''- **'' @ name @ ''**'' @ (if domain \<noteq> [] then '' ('' @ domain @ '')'' else [])
         @ (if industry \<noteq> [] then '' - '' @ industry else []))"

definition companies_lines :: "crm_object list \<Rightarrow> string list" where
  "companies_lines companies =
     (if length companies > 0
      then [''## Associated Companies''] @ map company_line companies @ [[]] else [])"

text \<open>
  Lines 1334-1338. The sort key \<^verbatim>\<open>parseInt(x.properties?.hs_timestamp) || 0\<close>: an absent
  timestamp and one that does not start with a number give NaN, hence 0.
\<close>

definition hs_timestamp :: "crm_object \<Rightarrow> string option" where
  "hs_timestamp x = (case properties x of None \<Rightarrow> None | Some p \<Rightarrow> p ''hs_timestamp'')"

definition ts_key :: "crm_object \<Rightarrow> int" where
  "ts_key x =
     (case hs_timestamp x of
        None \<Rightarrow> 0
      | Some t \<Rightarrow> (case parseInt t of None \<Rightarrow> 0 | Some n \<Rightarrow> n))"

definition compare_ts :: "crm_object \<Rightarrow> crm_object \<Rightarrow> int" where
  "compare_ts a b = ts_key a - ts_key b"

text \<open>
  \<^verbatim>\<open>Array.prototype.sort\<close> with a comparator is a stable comparison sort (ECMAScript 2019).
  With a consistent comparator, as \<open>compare_ts\<close> is, every stable sort returns the same
  array; the model is insertion sort: an element goes before the first one it does not
  exceed.
\<close>

fun insert_by :: "('a \<Rightarrow> 'a \<Rightarrow> int) \<Rightarrow> 'a \<Rightarrow> 'a list \<Rightarrow> 'a list" where
  "insert_by cmp x [] = [x]"
| "insert_by cmp x (y # ys) = (if cmp x y \<le> 0 then x # y # ys else y # insert_by cmp x ys)"

fun sort_by :: "('a \<Rightarrow> 'a \<Rightarrow> int) \<Rightarrow> 'a list \<Rightarrow> 'a list" where
  "sort_by cmp [] = []"
| "sort_by cmp (x # xs) = insert_by cmp x (sort_by cmp xs)"

definition sortedEngagements :: "crm_object list \<Rightarrow> crm_object list" where
  "sortedEngagements engagements = sort_by compare_ts engagements"

text \<open>Lines 1343-1393: the lines of one activity.\<close>

definition activity_lines :: "browser \<Rightarrow> crm_object \<Rightarrow> string list" where
  "activity_lines b eng =
     (let engType = or_else (engagement_type eng) ''unknown'';
          props = props_of eng;
          timestamp = formatTimestamp (props ''hs_timestamp'')
      in if engType = ''emails'' then
           (let subject = or_else (props ''hs_email_subject'') ''(No subject)'';
                direction = or_else (props ''hs_email_direction'') [];
                fromEmail = or_else (props ''hs_email_from_email'') [];
                toEmail = or_else (props ''hs_email_to_email'') [];
                body = (if stripHtml b (props ''hs_email_text'') True \<noteq> []
                        then stripHtml b (props ''hs_email_text'') True
                        else stripHtml b (props ''hs_email_html'') True);
                dirLabel = (if direction = ''EMAIL'' then ''OUTBOUND'' else ''INBOUND'')
            in [''### ['' @ timestamp @ ''] EMAIL ('' @ dirLabel @ '')'',
                ''**Subject:** '' @ subject,
                ''**From:** '' @ fromEmail @ '' -> **To:** '' @ toEmail,
                [nl] @ body @ [nl],
                ''---''])
         else if engType = ''notes'' then
           (let body = (if stripHtml b (props ''hs_note_body'') True \<noteq> []
                        then stripHtml b (props ''hs_note_body'') True
                        else or_else (props ''hs_body_preview'') [])
            in [''### ['' @ timestamp @ ''] NOTE'', [nl] @ body @ [nl], ''---''])
         else if engType = ''calls'' then
           (let title = or_else (props ''hs_call_title'') ''Call'';
                duration = or_else (props ''hs_call_duration'') [];
                body = or_else (props ''hs_call_body'') [];
                durationStr = (if duration \<noteq> []
                               then '' ('' @ minutes_of b duration @ ''m ''
                                    @ seconds_of b duration @ ''s)''
                               else [])
            in [''### ['' @ timestamp @ ''] CALL: '' @ title @ durationStr]
               @ (if body \<noteq> [] then [[nl] @ stripHtml b (Some body) True @ [nl]] else [])
               @ [''---''])
         else if engType = ''meetings'' then
           (let title = or_else (props ''hs_meeting_title'') ''Meeting'';
                body = or_else (props ''hs_meeting_body'') [];
                outcome = or_else (props ''hs_meeting_outcome'') []
            in [''### ['' @ timestamp @ ''] MEETING: '' @ title]
               @ (if outcome \<noteq> [] then [''**Outcome:** '' @ outcome] else [])
               @ (if body \<noteq> [] then [[nl] @ stripHtml b (Some body) True @ [nl]] else [])
               @ [''---''])
         else if engType = ''tasks'' then
           (let subject = or_else (props ''hs_task_subject'') ''Task'';
                status = or_else (props ''hs_task_status'') [];
                body = or_else (props ''hs_task_body'') []
            in [''### ['' @ timestamp @ ''] TASK: '' @ subject @ '' ['' @ status @ '']'']
               @ (if body \<noteq> [] then [[nl] @ stripHtml b (Some body) True @ [nl]] else [])
               @ [''---''])
         else [])"

definition timeline_lines :: "browser \<Rightarrow> crm_object list \<Rightarrow> string list" where
  "timeline_lines b engagements =
     [''## Activity Timeline (Chronological)'',
      ''*'' @ show_nat (length (sortedEngagements engagements)) @ '' total activities*'' @ [nl]]
     @ concat (map (activity_lines b) (sortedEngagements engagements))"

text \<open>
  \<^verbatim>\<open>toLowerCase\<close> on code units below 256: the letters A-Z, and the Latin-1 capitals
  0xC0-0xDE without the multiplication sign 0xD7.
\<close>

definition lower_char :: "char \<Rightarrow> char" where
  "lower_char c =
     (let n = (of_char c :: int)
      in if (65 \<le> n \<and> n \<le> 90) \<or> (192 \<le> n \<and> n \<le> 222 \<and> n \<noteq> 215)
         then char_of (n + 32) else c)"

definition toLowerCase :: "string \<Rightarrow> string" where
  "toLowerCase s = map lower_char s"

text \<open>\<^verbatim>\<open>s.includes(d)\<close>\<close>

fun includes_str :: "string \<Rightarrow> string \<Rightarrow> bool" where
  "includes_str [] d = (d = [])"
| "includes_str (c # cs) d = (prefix d (c # cs) \<or> includes_str cs d)"

definition doc_hosts :: "string list" where
  "doc_hosts = [''docs.google'', ''drive.google'', ''notion.so'', ''dropbox'', ''sharepoint'', ''onedrive'']"

definition is_doc_url :: "string \<Rightarrow> bool" where
  "is_doc_url url = list_ex (includes_str (toLowerCase url)) doc_hosts"

definition is_hubspot_url :: "string \<Rightarrow> bool" where
  "is_hubspot_url url = includes_str (toLowerCase url) ''hubspot''"

text \<open>Lines 1399-1412: the three buckets, each in the order of the collected index.\<close>

definition docUrls :: "url_index \<Rightarrow> url_index" where
  "docUrls collectedUrls = filter (\<lambda>(url, contexts). is_doc_url url) collectedUrls"

definition hubspotUrls :: "url_index \<Rightarrow> url_index" where
  "hubspotUrls collectedUrls =
     filter (\<lambda>(url, contexts). \<not> is_doc_url url \<and> is_hubspot_url url) collectedUrls"

definition otherUrls :: "url_index \<Rightarrow> url_index" where
  "otherUrls collectedUrls =
     filter (\<lambda>(url, contexts). \<not> is_doc_url url \<and> \<not> is_hubspot_url url) collectedUrls"

text \<open>Lines 1417-1418: a document URL and where it was found.\<close>

definition found_in :: "string list \<Rightarrow> string" where
  "found_in contexts =
     ''  *Found in: '' @ join '', '' (take 3 contexts)
     @ (if length contexts > 3 then ''...'' else []) @ ''*''"

definition doc_url_lines :: "string \<times> string list \<Rightarrow> string list" where
  "doc_url_lines e = [''- '' @ fst e, found_in (snd e)]"

definition url_line :: "string \<times> string list \<Rightarrow> string" where
  "url_line e = ''- '' @ fst e"

text \<open>Lines 1395-1440.\<close>

definition url_lines :: "url_index \<Rightarrow> string list" where
  "url_lines collectedUrls =
     (if length collectedUrls > 0 then
        [[nl] @ ''## Linked Documents & URLs'',
         ''*'' @ show_nat (length collectedUrls) @ '' unique URLs found in deal activities*'' @ [nl]]
        @ (if length (docUrls collectedUrls) > 0
           then [''### Meeting Notes & Documents'']
                @ concat (map doc_url_lines (docUrls collectedUrls))
           else [])
        @ (if length (hubspotUrls collectedUrls) > 0
           then [[nl] @ ''### HubSpot Links''] @ map url_line (hubspotUrls collectedUrls)
           else [])
        @ (if length (otherUrls collectedUrls) > 0
           then [[nl] @ ''### Other Links''] @ map url_line (take 20 (otherUrls collectedUrls))
                @ (if length (otherUrls collectedUrls) > 20
                   then [''*... and '' @ show_nat (length (otherUrls collectedUrls) - 20)
                         @ '' more*'']
                   else [])
           else [])
        @ [[]]
      else [])"

definition document_lines ::
  "browser \<Rightarrow> crm_object \<Rightarrow> crm_object list \<Rightarrow> crm_object list \<Rightarrow> crm_object list
     \<Rightarrow> url_index \<Rightarrow> string list" where
  "document_lines b deal contacts companies engagements collectedUrls =
     header_lines deal @ contacts_lines contacts @ companies_lines companies
     @ timeline_lines b engagements @ url_lines collectedUrls"

definition formatDealForClaude ::
  "browser \<Rightarrow> crm_object \<Rightarrow> crm_object list \<Rightarrow> crm_object list \<Rightarrow> crm_object list
     \<Rightarrow> url_index \<Rightarrow> string" where
  "formatDealForClaude b deal contacts companies engagements collectedUrls =
     join [nl] (document_lines b deal contacts companies engagements collectedUrls)"

section \<open>The HubSpot client (lines 1082-1196)\<close>

text \<open>
  A request is a URL and, for the batch read, the POST payload (the ids and the property
  names); a response is a status and the parsed JSON body (\<open>None\<close>: the body is
  \<^verbatim>\<open>null\<close>). The remote service is a function from requests to responses. Every task
  keeps the list of the requests it has issued.
\<close>

record request =
  url :: string
  payload :: "(string list \<times> string list) option"

record json_body =
  body_id :: string
  body_properties :: "props option"
  results :: "crm_object list option"
  next_link :: "string option"

record response =
  status :: nat
  body :: "json_body option"

type_synonym server = "request \<Rightarrow> response"

datatype error = HubSpotApiError nat | TypeError | CouldNotFetchDeal

text \<open>\<^verbatim>\<open>response.ok\<close>\<close>

definition ok :: "response \<Rightarrow> bool" where
  "ok r = (200 \<le> status r \<and> status r \<le> 299)"

definition HUBSPOT_BASE_URL :: string where
  "HUBSPOT_BASE_URL = ''https://api.hubapi.com''"

text \<open>Lines 1090-1105: one request; a response that is not ok is thrown as an error.\<close>

definition fetch :: "server \<Rightarrow> request \<Rightarrow> request list \<Rightarrow> (error + json_body option) \<times> request list" where
  "fetch srv rq log =
     (if \<not> ok (srv rq) then (Inl (HubSpotApiError (status (srv rq))), log @ [rq])
      else (Inr (body (srv rq)), log @ [rq]))"

definition get_request :: "string \<Rightarrow> request" where
  "get_request u = \<lparr>url = u, payload = None\<rparr>"

definition deal_url :: "string \<Rightarrow> string" where
  "deal_url dealId = HUBSPOT_BASE_URL @ ''/crm/v3/objects/deals/'' @ dealId @ ''?properties=''
     @ ''dealname,amount,dealstage,pipeline,closedate,createdate,hubspot_owner_id,description,hs_lastmodifieddate''"

definition getDeal :: "server \<Rightarrow> string \<Rightarrow> request list \<Rightarrow> (error + json_body option) \<times> request list" where
  "getDeal srv dealId log = fetch srv (get_request (deal_url dealId)) log"

definition assoc_url :: "string \<Rightarrow> string \<Rightarrow> string" where
  "assoc_url dealId toObject =
     HUBSPOT_BASE_URL @ ''/crm/v4/objects/deals/'' @ dealId @ ''/associations/'' @ toObject"

text \<open>\<^verbatim>\<open>data.results || []\<close>\<close>

definition results_of :: "json_body \<Rightarrow> crm_object list" where
  "results_of data = (case results data of None \<Rightarrow> [] | Some rs \<Rightarrow> rs)"

text \<open>\<^verbatim>\<open>data.paging?.next?.link || null\<close>\<close>

definition next_of :: "json_body \<Rightarrow> string option" where
  "next_of data = (if truthy (next_link data) then next_link data else None)"

text \<open>
  Lines 1118-1122, the loop \<^verbatim>\<open>while (nextUrl)\<close>. Nothing bounds the number of pages, so
  the loop may run forever: the result \<open>None\<close>. Reading a property of a \<^verbatim>\<open>null\<close> body
  throws a TypeError.
\<close>

partial_function (option) assoc_loop ::
  "server \<Rightarrow> string option \<Rightarrow> crm_object list \<Rightarrow> request list
     \<Rightarrow> ((error + crm_object list) \<times> request list) option" where
  "assoc_loop srv nextUrl allResults log =
     (case nextUrl of
        None \<Rightarrow> Some (Inr allResults, log)
      | Some u \<Rightarrow>
          if u = [] then Some (Inr allResults, log)
          else (case fetch srv (get_request u) log of
                  (Inl e, log') \<Rightarrow> Some (Inl e, log')
                | (Inr None, log') \<Rightarrow> Some (Inl TypeError, log')
                | (Inr (Some data), log') \<Rightarrow>
                    assoc_loop srv (next_of data) (allResults @ results_of data) log'))"

definition getAssociations ::
  "server \<Rightarrow> string \<Rightarrow> string \<Rightarrow> request list \<Rightarrow> ((error + crm_object list) \<times> request list) option" where
  "getAssociations srv dealId toObject log = assoc_loop srv (Some (assoc_url dealId toObject)) [] log"

text \<open>\<^verbatim>\<open>String(id)\<close> on an integer.\<close>

definition show_int :: "int \<Rightarrow> string" where
  "show_int i = (if i < 0 then ''-'' @ show_digits (- i) else show_digits i)"

text \<open>\<^verbatim>\<open>assocs.map(a => a.toObjectId).filter(Boolean)\<close>: an absent id and the id 0 are dropped.\<close>

definition object_ids :: "crm_object list \<Rightarrow> int list" where
  "object_ids assocs = concat (map (\<lambda>a. case toObjectId a of None \<Rightarrow> [] | Some i \<Rightarrow> if i = 0 then [] else [i]) assocs)"

text \<open>Lines 1127-1142.\<close>

definition getObjectBatch ::
  "server \<Rightarrow> string \<Rightarrow> int list \<Rightarrow> string list \<Rightarrow> request list
     \<Rightarrow> (error + crm_object list) \<times> request list" where
  "getObjectBatch srv objectType objectIds propNames log =
     (if length objectIds = 0 then (Inr [], log)
      else (case fetch srv
                   \<lparr>url = HUBSPOT_BASE_URL @ ''/crm/v3/objects/'' @ objectType @ ''/batch/read'',
                    payload = Some (map show_int objectIds, propNames)\<rparr> log of
              (Inl e, log') \<Rightarrow> (Inl e, log')
            | (Inr None, log') \<Rightarrow> (Inl TypeError, log')
            | (Inr (Some data), log') \<Rightarrow> (Inr (results_of data), log')))"

text \<open>The associations of one type, then the batch read of their targets.\<close>

definition getRelated ::
  "server \<Rightarrow> string \<Rightarrow> string \<Rightarrow> string list \<Rightarrow> request list
     \<Rightarrow> ((error + crm_object list) \<times> request list) option" where
  "getRelated srv dealId objectType propNames log =
     (case getAssociations srv dealId objectType log of
        None \<Rightarrow> None
      | Some (Inl e, log') \<Rightarrow> Some (Inl e, log')
      | Some (Inr assocs, log') \<Rightarrow>
          Some (getObjectBatch srv objectType (object_ids assocs) propNames log'))"

text \<open>Lines 1144-1154.\<close>

definition getContacts :: "server \<Rightarrow> string \<Rightarrow> request list \<Rightarrow> ((error + crm_object list) \<times> request list) option" where
  "getContacts srv dealId log =
     getRelated srv dealId ''contacts'' [''firstname'', ''lastname'', ''email'', ''phone'', ''company''] log"

definition getCompanies :: "server \<Rightarrow> string \<Rightarrow> request list \<Rightarrow> ((error + crm_object list) \<times> request list) option" where
  "getCompanies srv dealId log =
     getRelated srv dealId ''companies'' [''name'', ''domain'', ''industry''] log"

text \<open>Lines 1157-1177: the catalog, in the order \<^verbatim>\<open>Object.entries\<close> lists it.\<close>

definition engagementConfig :: "(string \<times> string list) list" where
  "engagementConfig =
     [(''emails'', [''hs_email_subject'', ''hs_email_text'', ''hs_email_html'', ''hs_timestamp'',
         ''hs_email_direction'', ''hs_email_from_email'', ''hs_email_to_email'',
         ''hs_email_from_firstname'', ''hs_email_from_lastname'']),
      (''notes'', [''hs_note_body'', ''hs_timestamp'', ''hubspot_owner_id'', ''hs_body_preview'']),
      (''calls'', [''hs_call_body'', ''hs_call_title'', ''hs_timestamp'', ''hs_call_duration'',
         ''hs_call_direction'', ''hs_call_status'', ''hs_call_from_number'', ''hs_call_to_number'',
         ''hs_call_recording_url'']),
      (''meetings'', [''hs_meeting_title'', ''hs_meeting_body'', ''hs_timestamp'',
         ''hs_meeting_start_time'', ''hs_meeting_end_time'', ''hs_meeting_outcome'']),
      (''tasks'', [''hs_task_subject'', ''hs_task_body'', ''hs_timestamp'',
         ''hs_task_status'', ''hs_task_priority''])]"

text \<open>
  Lines 1181-1192: the loop over the catalog; the batch read is skipped when a category
  has no target id, and every record read is tagged with its category.
\<close>

fun engagements_loop ::
  "server \<Rightarrow> string \<Rightarrow> (string \<times> string list) list \<Rightarrow> crm_object list \<Rightarrow> request list
     \<Rightarrow> ((error + crm_object list) \<times> request list) option" where
  "engagements_loop srv dealId [] allEngagements log = Some (Inr allEngagements, log)"
| "engagements_loop srv dealId ((engType, props) # config) allEngagements log =
     (case getAssociations srv dealId engType log of
        None \<Rightarrow> None
      | Some (Inl e, log') \<Rightarrow> Some (Inl e, log')
      | Some (Inr associations, log') \<Rightarrow>
          if length (object_ids associations) > 0
          then (case getObjectBatch srv engType (object_ids associations) props log' of
                  (Inl e, log'') \<Rightarrow> Some (Inl e, log'')
                | (Inr details, log'') \<Rightarrow>
                    engagements_loop srv dealId config
                      (allEngagements @ map (\<lambda>d. d\<lparr>engagement_type := Some engType\<rparr>) details)
                      log'')
          else engagements_loop srv dealId config allEngagements log')"

definition getAllEngagements :: "server \<Rightarrow> string \<Rightarrow> request list \<Rightarrow> ((error + crm_object list) \<times> request list) option" where
  "getAllEngagements srv dealId log = engagements_loop srv dealId engagementConfig [] log"

section \<open>The run (runAnalysis, lines 646-671)\<close>

text \<open>
  \<^verbatim>\<open>Promise.all\<close> of two tasks: rejected as soon as one of them is rejected, whatever
  the other does; fulfilled when both are. When both are rejected the error is the one
  that arrives first, which depends on the timing of the responses: \<open>first\<close> tells
  whether it is the first task's.
\<close>

definition promise_all ::
  "bool \<Rightarrow> ((error + 'a) \<times> request list) option \<Rightarrow> ((error + 'b) \<times> request list) option
     \<Rightarrow> (error + 'a \<times> 'b) option" where
  "promise_all first x y =
     (case (x, y) of
        (Some (Inl e1, l1), Some (Inl e2, l2)) \<Rightarrow> Some (Inl (if first then e1 else e2))
      | (Some (Inl e1, l1), _) \<Rightarrow> Some (Inl e1)
      | (_, Some (Inl e2, l2)) \<Rightarrow> Some (Inl e2)
      | (Some (Inr a, l1), Some (Inr b, l2)) \<Rightarrow> Some (Inr (a, b))
      | _ \<Rightarrow> None)"

definition deal_object :: "json_body \<Rightarrow> crm_object" where
  "deal_object d = \<lparr>obj_id = body_id d, toObjectId = None, properties = body_properties d,
     engagement_type = None\<rparr>"

text \<open>
  The part of \<^verbatim>\<open>runAnalysis\<close> that assembles the document: the outcome is the error that
  the \<^verbatim>\<open>catch\<close> of line 728 shows, or the document passed on to the analysis; \<open>None\<close>
  when the run never gets there.
\<close>

definition assemble_run :: "server \<Rightarrow> browser \<Rightarrow> bool \<Rightarrow> string \<Rightarrow> (error + string) option" where
  "assemble_run srv b first dealId =
     (case getDeal srv dealId [] of
        (Inl e, log) \<Rightarrow> Some (Inl e)
      | (Inr None, log) \<Rightarrow> Some (Inl CouldNotFetchDeal)
      | (Inr (Some deal), log) \<Rightarrow>
          (case promise_all first (getContacts srv dealId []) (getCompanies srv dealId []) of
             None \<Rightarrow> None
           | Some (Inl e) \<Rightarrow> Some (Inl e)
           | Some (Inr (contacts, companies)) \<Rightarrow>
               (case getAllEngagements srv dealId [] of
                  None \<Rightarrow> None
                | Some (Inl e, log') \<Rightarrow> Some (Inl e)
                | Some (Inr engagements, log') \<Rightarrow>
                    Some (Inr (formatDealForClaude b (deal_object deal) contacts companies
                                 engagements (collectAllUrls engagements))))))"

section \<open>Sample inputs\<close>

text \<open>
  A browser for concrete evaluations: its decoder leaves the text as it is, which is what
  a real decoder does on text without character references, and the sample inputs have
  none; no sample input has a call duration either.
\<close>

definition plain_browser :: browser where
  "plain_browser = \<lparr>decodeEntities = (\<lambda>t. t), minutes_of = (\<lambda>d. d), seconds_of = (\<lambda>d. d)\<rparr>"

text \<open>A record with the given id, category tag and properties.\<close>

definition sample_object :: "string \<Rightarrow> string option \<Rightarrow> (string \<times> string) list \<Rightarrow> crm_object" where
  "sample_object i t ps =
     \<lparr>obj_id = i, toObjectId = None, properties = Some (map_of ps), engagement_type = t\<rparr>"


text \<open>Two notes that mention a CRM link, a document link and, twice, another link.\<close>

definition sample_links :: "crm_object list" where
  "sample_links =
     [sample_object ''1'' (Some ''notes'')
        [(''hs_note_body'', ''See https://app.hubspot.com/contacts/1 and http://example.com/y''),
         (''hs_timestamp'', ''1700000000000'')],
      sample_object ''2'' (Some ''notes'')
        [(''hs_note_body'', ''Again http://example.com/y, https://docs.google.com/x''),
         (''hs_timestamp'', ''1700000000000'')]]"

section \<open>Notions used to state the properties of the client\<close>

text \<open>
  A paginated listing of \<open>N\<close> pages at a URL: the URL answers with the first page, every
  page but the last names the URL of the next one, and the last page names none.
\<close>

fun listing :: "server \<Rightarrow> string \<Rightarrow> json_body list \<Rightarrow> bool" where
  "listing srv u [] = False"
| "listing srv u (p # ps) =
     (ok (srv (get_request u)) \<and> body (srv (get_request u)) = Some p
      \<and> (case next_of p of
            None \<Rightarrow> ps = []
          | Some u' \<Rightarrow> ps \<noteq> [] \<and> listing srv u' ps))"

text \<open>Some request of the list got a response that is not ok.\<close>

definition failed :: "server \<Rightarrow> request list \<Rightarrow> bool" where
  "failed srv reqs = list_ex (\<lambda>rq. \<not> ok (srv rq)) reqs"

text \<open>
  A service for deal 42: the deal, two pages of contact associations, the batch read of
  the contacts, no company, and status 429 for the email associations.
\<close>

definition edge :: "int \<Rightarrow> crm_object" where
  "edge i = \<lparr>obj_id = [], toObjectId = Some i, properties = None, engagement_type = None\<rparr>"

definition page :: "crm_object list \<Rightarrow> string option \<Rightarrow> json_body" where
  "page rs nxt = \<lparr>body_id = [], body_properties = None, results = Some rs, next_link = nxt\<rparr>"

definition sample_server :: server where
  "sample_server rq =
     (if rq = get_request (deal_url ''42'')
      then \<lparr>status = 200, body = Some \<lparr>body_id = ''42'',
              body_properties = Some (map_of [(''dealname'', ''Acme Renewal''), (''amount'', ''50000'')]),
              results = None, next_link = None\<rparr>\<rparr>
      else if rq = get_request (assoc_url ''42'' ''contacts'')
      then \<lparr>status = 200,
            body = Some (page [edge 101, edge 102] (Some ''https://api.hubapi.com/page2''))\<rparr>
      else if rq = get_request ''https://api.hubapi.com/page2''
      then \<lparr>status = 200, body = Some (page [edge 103] None)\<rparr>
      else if url rq = ''https://api.hubapi.com/crm/v3/objects/contacts/batch/read''
      then \<lparr>status = 200,
            body = Some (page [sample_object ''101'' None [(''firstname'', ''Ada'')]] None)\<rparr>
      else if rq = get_request (assoc_url ''42'' ''companies'')
      then \<lparr>status = 200, body = Some (page [] None)\<rparr>
      else if rq = get_request (assoc_url ''42'' ''emails'')
      then \<lparr>status = 429, body = None\<rparr>
      else \<lparr>status = 404, body = None\<rparr>)"

text \<open>
  The cursor chain from URL \<open>u\<close> leads to URL \<open>v\<close> through the pages \<open>ps\<close>: each of
  them is served with an ok response and names the next URL, the last one naming \<open>v\<close>;
  with no page, \<open>v\<close> is \<open>u\<close> itself. Nothing is said of the response to \<open>v\<close>.
\<close>

fun leads :: "server \<Rightarrow> string \<Rightarrow> json_body list \<Rightarrow> string \<Rightarrow> bool" where
  "leads srv u [] v = (u = v)"
| "leads srv u (p # ps) v =
     (ok (srv (get_request u)) \<and> body (srv (get_request u)) = Some p
      \<and> (case next_of p of None \<Rightarrow> False | Some u' \<Rightarrow> leads srv u' ps v))"

text \<open>The request of the batch read at lines 1130-1139.\<close>

definition batch_request :: "string \<Rightarrow> int list \<Rightarrow> string list \<Rightarrow> request" where
  "batch_request objectType objectIds propNames =
     \<lparr>url = HUBSPOT_BASE_URL @ ''/crm/v3/objects/'' @ objectType @ ''/batch/read'',
      payload = Some (map show_int objectIds, propNames)\<rparr>"

text \<open>
  The task that reads the objects of type \<open>t\<close> gets the response to \<open>rq\<close>: either \<open>rq\<close>
  is a GET that the cursor chain of the associations leads to, or the associations are a
  complete listing with at least one target id and \<open>rq\<close> is the batch read of the ids.
  This is a condition on the service alone.
\<close>

definition related_gets :: "server \<Rightarrow> string \<Rightarrow> string \<Rightarrow> string list \<Rightarrow> request \<Rightarrow> bool" where
  "related_gets srv dealId t ps rq =
     ((\<exists>pages. leads srv (assoc_url dealId t) pages (url rq) \<and> payload rq = None)
      \<or> (\<exists>pages. listing srv (assoc_url dealId t) pages
             \<and> object_ids (concat (map results_of pages)) \<noteq> []
             \<and> rq = batch_request t (object_ids (concat (map results_of pages))) ps))"

text \<open>
  The service serves the objects \<open>rs\<close> of type \<open>t\<close>: the associations are a complete
  listing, and the batch read of their target ids (none is made when there is no id)
  answers ok with the results \<open>rs\<close>.
\<close>

definition related_serves :: "server \<Rightarrow> string \<Rightarrow> string \<Rightarrow> string list \<Rightarrow> crm_object list \<Rightarrow> bool" where
  "related_serves srv dealId t ps rs =
     (\<exists>pages. listing srv (assoc_url dealId t) pages
        \<and> (if object_ids (concat (map results_of pages)) = [] then rs = []
            else ok (srv (batch_request t (object_ids (concat (map results_of pages))) ps))
                 \<and> (\<exists>data. body (srv (batch_request t (object_ids (concat (map results_of pages))) ps))
                              = Some data \<and> rs = results_of data)))"

text \<open>The deal request is answered ok with a body that is not \<^verbatim>\<open>null\<close>.\<close>

definition deal_served :: "server \<Rightarrow> string \<Rightarrow> bool" where
  "deal_served srv dealId =
     (ok (srv (get_request (deal_url dealId))) \<and> body (srv (get_request (deal_url dealId))) \<noteq> None)"

text \<open>
  The engagement task gets the response to \<open>rq\<close>: the categories before some category
  of the catalog are served, and the task of that category gets the response.
\<close>

definition engagements_get :: "server \<Rightarrow> string \<Rightarrow> request \<Rightarrow> bool" where
  "engagements_get srv dealId rq =
     (\<exists>before t ps after. engagementConfig = before @ (t, ps) # after
        \<and> list_all (\<lambda>c. \<exists>rs. related_serves srv dealId (fst c) (snd c) rs) before
        \<and> related_gets srv dealId t ps rq)"

text \<open>
  A service for deal 42 whose contact associations answer 500 and whose company
  associations answer 503.
\<close>

definition busy_server :: server where
  "busy_server rq =
     (if rq = get_request (deal_url ''42'')
      then \<lparr>status = 200, body = Some \<lparr>body_id = ''42'',
              body_properties = Some (map_of [(''dealname'', ''Acme Renewal'')]),
              results = None, next_link = None\<rparr>\<rparr>
      else if rq = get_request (assoc_url ''42'' ''contacts'')
      then \<lparr>status = 500, body = None\<rparr>
      else if rq = get_request (assoc_url ''42'' ''companies'')
      then \<lparr>status = 503, body = None\<rparr>
      else \<lparr>status = 404, body = None\<rparr>)"

section \<open>Notions used to state the properties of URL collection\<close>

text \<open>
  URL collection as the specification words it: the content of a record is sanitized
  first (with \<open>preserveUrls\<close>) and the URLs are extracted from the sanitized text. Used
  only for comparison with \<open>collectAllUrls\<close>.
\<close>

definition spec_collect_one :: "browser \<Rightarrow> url_index \<Rightarrow> crm_object \<Rightarrow> url_index" where
  "spec_collect_one b allUrls eng =
     foldl (\<lambda>acc url. push_context url (engagement_context eng) acc) allUrls
       (extractUrlsFromContent (stripHtml b (Some (engagement_content eng)) True))"

definition spec_collectAllUrls :: "browser \<Rightarrow> crm_object list \<Rightarrow> url_index" where
  "spec_collectAllUrls b engagements = foldl (spec_collect_one b) [] engagements"

text \<open>The properties that a context label reads.\<close>

definition label_properties :: "string list" where
  "label_properties = [''hs_timestamp'', ''hs_email_subject'', ''hs_call_title'',
     ''hs_meeting_title'', ''hs_task_subject'']"

text \<open>The email of the specification's end-to-end scenario.\<close>

definition sample_email :: crm_object where
  "sample_email = sample_object ''7'' (Some ''emails'')
     [(''hs_email_subject'', ''Demo''),
      (''hs_email_html'', ''<p>Loved the demo! See <http://docs.google.com/abc></p>''),
      (''hs_timestamp'', ''1700000000000'')]"

text \<open>A note that mentions one URL three times.\<close>

definition sample_repeat :: "crm_object list" where
  "sample_repeat =
     [sample_object ''1'' (Some ''notes'')
        [(''hs_note_body'', ''http://a.com/b http://a.com/b, and http://a.com/b.''),
         (''hs_timestamp'', ''1700000000000'')]]"






section \<open>The header of the document\<close>

lemma or_else_truthy: "or_else x d = (if truthy x then the x else d)"
  by (cases x) (simp_all add: or_else_def truthy_def)

lemma document_header:
  "document_lines b deal contacts companies engagements urls =
     header_lines deal @ (contacts_lines contacts @ companies_lines companies
     @ timeline_lines b engagements @ url_lines urls)"
  by (simp add: document_lines_def)

text \<open>
  C8, as the code has it. The document starts with the lines of the deal name, amount,
  stage, created date and close date; a missing (absent or empty) amount, stage or date is
  written \<open>N/A\<close>, a missing deal name is written \<open>Unknown Deal\<close>, and the description
  line is there only when the deal has a non-empty description. A blank line ends the
  header.
\<close>

theorem header_fallbacks:
  "\<exists>rest. document_lines b deal contacts companies engagements urls =
     [''# Deal: '' @ (if truthy (props_of deal ''dealname'')
                      then the (props_of deal ''dealname'') else ''Unknown Deal''),
      [nl] @ ''**Amount:** '' @ (if truthy (props_of deal ''amount'')
                      then the (props_of deal ''amount'') else ''N/A''),
      ''**Stage:** '' @ (if truthy (props_of deal ''dealstage'')
                      then the (props_of deal ''dealstage'') else ''N/A''),
      ''**Created:** '' @ (if truthy (props_of deal ''createdate'')
                      then the (props_of deal ''createdate'') else ''N/A''),
      ''**Close Date:** '' @ (if truthy (props_of deal ''closedate'')
                      then the (props_of deal ''closedate'') else ''N/A'')]
     @ (if truthy (props_of deal ''description'')
        then [''**Description:** '' @ the (props_of deal ''description'')] else [])
     @ [[]] @ rest"
proof -
  have n: "(case properties deal of None \<Rightarrow> None | Some p \<Rightarrow> p ''dealname'')
           = props_of deal ''dealname''"
    by (simp add: props_of_def split: option.splits)
  show ?thesis
    unfolding document_header header_lines_def Let_def n or_else_truthy
    by (intro exI) simp
qed

text \<open>
  C8 as stated fails: a deal without name and description gets the name
  \<open>Unknown Deal\<close>, not \<open>N/A\<close>, and no description line at all.
\<close>

theorem header_fallbacks_counterexample:
  "formatDealForClaude plain_browser (sample_object ''1'' None [(''amount'', ''50000'')]) [] [] [] []
     = ''# Deal: Unknown Deal\<newline>\<newline>**Amount:** 50000\<newline>**Stage:** N/A\<newline>**Created:** N/A\<newline>**Close Date:** N/A\<newline>\<newline>## Activity Timeline (Chronological)\<newline>*0 total activities*\<newline>''
   \<and> ''**Description:** N/A''
       \<notin> set (document_lines plain_browser (sample_object ''1'' None [(''amount'', ''50000'')]) [] [] [] [])"
  by code_simp

section \<open>The chronological sort\<close>

lemma insert_by_insort: "insert_by (\<lambda>a b. f a - f b) x ys = insort_key f x ys"
  by (induction ys) (simp_all add: algebra_simps)

lemma sort_by_sort_key: "sort_by (\<lambda>a b. (f a :: int) - f b) xs = sort_key f xs"
  by (induction xs) (simp_all add: insert_by_insort)

lemma sortedEngagements_sort_key: "sortedEngagements engs = sort_key ts_key engs"
  unfolding sortedEngagements_def compare_ts_def [abs_def] by (rule sort_by_sort_key)





text \<open>
  C6. The sort is stable: for every timestamp value \<open>k\<close> (0 for a missing timestamp),
  the records with that value appear in the sorted timeline in the order they had in the
  aggregator's output; the sorted timeline has the same records.
\<close>

theorem timestamp_sort_stable:
  "filter (\<lambda>e. ts_key e = k) (sortedEngagements engs) = filter (\<lambda>e. ts_key e = k) engs
   \<and> mset (sortedEngagements engs) = mset engs"
  by (simp add: sortedEngagements_sort_key sort_key_stable)

section \<open>The URL index of the document\<close>

lemma url_section_lines:
  "url_lines collectedUrls =
     (if collectedUrls = [] then []
      else [[nl] @ ''## Linked Documents & URLs'',
            ''*'' @ show_nat (length collectedUrls) @ '' unique URLs found in deal activities*'' @ [nl]]
           @ (if docUrls collectedUrls = [] then []
              else ''### Meeting Notes & Documents''
                   # concat (map (\<lambda>(url, contexts).
                        [''- '' @ url,
                         ''  *Found in: '' @ join '', '' (take 3 contexts)
                         @ (if length contexts > 3 then ''...'' else []) @ ''*''])
                       (docUrls collectedUrls)))
           @ (if hubspotUrls collectedUrls = [] then []
              else ([nl] @ ''### HubSpot Links'')
                   # map (\<lambda>(url, contexts). ''- '' @ url) (hubspotUrls collectedUrls))
           @ (if otherUrls collectedUrls = [] then []
              else ([nl] @ ''### Other Links'')
                   # map (\<lambda>(url, contexts). ''- '' @ url) (take 20 (otherUrls collectedUrls))
                   @ (if length (otherUrls collectedUrls) > 20
                      then [''*... and '' @ show_nat (length (otherUrls collectedUrls) - 20) @ '' more*'']
                      else []))
           @ [[]])"
proof -
  have d: "doc_url_lines = (\<lambda>(url, contexts).
                        [''- '' @ url,
                         ''  *Found in: '' @ join '', '' (take 3 contexts)
                         @ (if length contexts > 3 then ''...'' else []) @ ''*''])"
    by (auto simp: doc_url_lines_def found_in_def fun_eq_iff)
  have u: "url_line = (\<lambda>(url, contexts). ''- '' @ url)"
    by (auto simp: url_line_def fun_eq_iff)
  show ?thesis
    unfolding url_lines_def d u by simp
qed

text \<open>
  C9, as the code has it. The document ends with the URL index (nothing when no URL was
  collected). A URL of the documents bucket is followed by a line with its first three
  contexts, and an ellipsis when it has more; a URL of the CRM bucket or of the other
  bucket is listed alone, without contexts. The other bucket lists its first 20 URLs,
  and a note gives the number of the remaining ones when there are more than 20.
\<close>

theorem url_index_layout:
  "\<exists>pre. document_lines b deal contacts companies engagements collectedUrls = pre @
     (if collectedUrls = [] then []
      else [[nl] @ ''## Linked Documents & URLs'',
            ''*'' @ show_nat (length collectedUrls) @ '' unique URLs found in deal activities*'' @ [nl]]
           @ (if docUrls collectedUrls = [] then []
              else ''### Meeting Notes & Documents''
                   # concat (map (\<lambda>(url, contexts).
                        [''- '' @ url,
                         ''  *Found in: '' @ join '', '' (take 3 contexts)
                         @ (if length contexts > 3 then ''...'' else []) @ ''*''])
                       (docUrls collectedUrls)))
           @ (if hubspotUrls collectedUrls = [] then []
              else ([nl] @ ''### HubSpot Links'')
                   # map (\<lambda>(url, contexts). ''- '' @ url) (hubspotUrls collectedUrls))
           @ (if otherUrls collectedUrls = [] then []
              else ([nl] @ ''### Other Links'')
                   # map (\<lambda>(url, contexts). ''- '' @ url) (take 20 (otherUrls collectedUrls))
                   @ (if length (otherUrls collectedUrls) > 20
                      then [''*... and '' @ show_nat (length (otherUrls collectedUrls) - 20) @ '' more*'']
                      else []))
           @ [[]])"
  unfolding document_lines_def url_section_lines [symmetric]
  by (metis append.assoc)

text \<open>
  C9 as stated fails: in the document of two notes, the CRM link and the other link
  (found in both notes) are listed without any context; only the document link has its
  \<open>Found in\<close> line.
\<close>

theorem url_contexts_counterexample:
  "formatDealForClaude plain_browser (sample_object ''1'' None [(''dealname'', ''Acme'')]) [] []
     sample_links (collectAllUrls sample_links)
   = ''# Deal: Acme\<newline>\<newline>**Amount:** N/A\<newline>**Stage:** N/A\<newline>**Created:** N/A\<newline>**Close Date:** N/A\<newline>\<newline>## Activity Timeline (Chronological)\<newline>*2 total activities*\<newline>\<newline>### [2023-11-14 22:13] NOTE\<newline>\<newline>See https://app.hubspot.com/contacts/1 and http://example.com/y\<newline>\<newline>---\<newline>### [2023-11-14 22:13] NOTE\<newline>\<newline>Again http://example.com/y, https://docs.google.com/x\<newline>\<newline>---\<newline>\<newline>## Linked Documents & URLs\<newline>*3 unique URLs found in deal activities*\<newline>\<newline>### Meeting Notes & Documents\<newline>- https://docs.google.com/x\<newline>  *Found in: Note (2023-11-14 22:13)*\<newline>\<newline>### HubSpot Links\<newline>- https://app.hubspot.com/contacts/1\<newline>\<newline>### Other Links\<newline>- http://example.com/y\<newline>''"
  by code_simp

section \<open>Pagination\<close>

lemma next_of_nonempty: "next_of p = Some u \<Longrightarrow> u \<noteq> []"
  by (auto simp: next_of_def truthy_def split: if_splits option.splits)

lemma assoc_loop_listing:
  "listing srv u pages \<Longrightarrow> u \<noteq> [] \<Longrightarrow>
     \<exists>reqs. assoc_loop srv (Some u) acc log
              = Some (Inr (acc @ concat (map results_of pages)), log @ reqs)
            \<and> length reqs = length pages
            \<and> reqs = map get_request
                       (take (length pages) (u # map (\<lambda>p. or_else (next_link p) []) pages))"
proof (induction pages arbitrary: u acc log)
  case Nil
  then show ?case by simp
next
  case (Cons p ps)
  from Cons.prems have f: "fetch srv (get_request u) log = (Inr (Some p), log @ [get_request u])"
    by (simp add: fetch_def)
  show ?case
  proof (cases "next_of p")
    case None
    with Cons.prems have "ps = []" by simp
    with None f Cons.prems(2) show ?thesis
      by (subst assoc_loop.simps) (simp add: assoc_loop.simps)
  next
    case (Some u')
    with Cons.prems have l: "listing srv u' ps" by simp
    from Some have ne: "u' \<noteq> []" by (rule next_of_nonempty)
    from Cons.IH [OF l ne, of "acc @ results_of p" "log @ [get_request u]"]
    obtain reqs where
      r: "assoc_loop srv (Some u') (acc @ results_of p) (log @ [get_request u])
            = Some (Inr ((acc @ results_of p) @ concat (map results_of ps)), (log @ [get_request u]) @ reqs)"
      and n: "length reqs = length ps"
      and us: "reqs = map get_request
                       (take (length ps) (u' # map (\<lambda>p. or_else (next_link p) []) ps))"
      by blast
    from Some have nx: "or_else (next_link p) [] = u'"
      by (auto simp: next_of_def or_else_def truthy_def split: if_splits option.splits)
    have "assoc_loop srv (Some u) acc log
            = Some (Inr (acc @ concat (map results_of (p # ps))), log @ (get_request u # reqs))"
      using f Some r Cons.prems(2) by (subst assoc_loop.simps) simp
    with n us nx show ?thesis
      by (intro exI [of _ "get_request u # reqs"]) simp
  qed
qed

lemma assoc_url_nonempty: "assoc_url dealId toObject \<noteq> []"
  by (simp add: assoc_url_def HUBSPOT_BASE_URL_def)

text \<open>
  C1. When the association URL of a related type serves a listing of \<open>N\<close> pages,
  \<^verbatim>\<open>getAssociations\<close> returns the concatenation of the pages' results in page order and
  issues exactly \<open>N\<close> requests: a GET of the association URL, then of the next-page
  link of each page but the last. The pages may have any number of results.
\<close>

theorem getAssociations_all_pages:
  "listing srv (assoc_url dealId toObject) pages \<Longrightarrow>
     \<exists>reqs. getAssociations srv dealId toObject log
              = Some (Inr (concat (map results_of pages)), log @ reqs)
            \<and> length reqs = length pages
            \<and> reqs = map get_request (take (length pages)
                 (assoc_url dealId toObject # map (\<lambda>p. or_else (next_link p) []) pages))"
  using assoc_loop_listing [of srv "assoc_url dealId toObject" pages "[]" log]
  by (simp add: getAssociations_def assoc_url_nonempty)

lemmas sample_eval = getDeal_def fetch_def sample_server_def ok_def getContacts_def getCompanies_def
  getRelated_def getAssociations_def assoc_loop.simps getObjectBatch_def object_ids_def
  results_of_def next_of_def truthy_def page_def edge_def get_request_def assoc_url_def deal_url_def
  HUBSPOT_BASE_URL_def getAllEngagements_def engagementConfig_def

lemma sample_listing:
  "listing sample_server (assoc_url ''42'' ''contacts'')
     [page [edge 101, edge 102] (Some ''https://api.hubapi.com/page2''), page [edge 103] None]"
  by (simp add: sample_eval)

lemma sample_pages:
  "getAssociations sample_server ''42'' ''contacts'' []
     = Some (Inr [edge 101, edge 102, edge 103],
             [get_request ''https://api.hubapi.com/crm/v4/objects/deals/42/associations/contacts'',
              get_request ''https://api.hubapi.com/page2''])"
  by (simp add: sample_eval)

theorem getAssociations_all_pages_witness:
  "listing sample_server (assoc_url ''42'' ''contacts'')
     [page [edge 101, edge 102] (Some ''https://api.hubapi.com/page2''), page [edge 103] None]
   \<and> (\<exists>reqs. getAssociations sample_server ''42'' ''contacts'' []
                = Some (Inr (concat (map results_of
                     [page [edge 101, edge 102] (Some ''https://api.hubapi.com/page2''),
                      page [edge 103] None])), [] @ reqs)
              \<and> length reqs = 2)
   \<and> getAssociations sample_server ''42'' ''contacts'' []
       = Some (Inr [edge 101, edge 102, edge 103],
               [get_request ''https://api.hubapi.com/crm/v4/objects/deals/42/associations/contacts'',
                get_request ''https://api.hubapi.com/page2''])"
proof -
  from getAssociations_all_pages [OF sample_listing, of "[]"]
  have "\<exists>reqs. getAssociations sample_server ''42'' ''contacts'' []
                = Some (Inr (concat (map results_of
                     [page [edge 101, edge 102] (Some ''https://api.hubapi.com/page2''),
                      page [edge 103] None])), [] @ reqs)
              \<and> length reqs = 2"
    by auto
  with sample_listing sample_pages show ?thesis
    by blast
qed

section \<open>Fetch errors end the run\<close>

lemma failed_simps [simp]:
  "failed srv [] = False"
  "failed srv (rq # reqs) = (\<not> ok (srv rq) \<or> failed srv reqs)"
  "failed srv (xs @ ys) = (failed srv xs \<or> failed srv ys)"
  by (auto simp: failed_def)

lemma leads_fails:
  "leads srv u pages v \<Longrightarrow> u \<noteq> [] \<Longrightarrow> \<not> ok (srv (get_request v)) \<Longrightarrow>
     \<exists>reqs. assoc_loop srv (Some u) acc log
              = Some (Inl (HubSpotApiError (status (srv (get_request v)))),
                      log @ reqs @ [get_request v])
            \<and> \<not> failed srv reqs"
proof (induction pages arbitrary: u acc log)
  case Nil
  then have "fetch srv (get_request u) log
               = (Inl (HubSpotApiError (status (srv (get_request v)))), log @ [get_request v])"
    by (simp add: fetch_def)
  with Nil.prems(2) have "assoc_loop srv (Some u) acc log
              = Some (Inl (HubSpotApiError (status (srv (get_request v)))), log @ [] @ [get_request v])"
    by (subst assoc_loop.simps) simp
  then show ?case by (intro exI [of _ "[]"]) simp
next
  case (Cons p ps)
  from Cons.prems(1) obtain u' where oku: "ok (srv (get_request u))"
    and bd: "body (srv (get_request u)) = Some p" and nx: "next_of p = Some u'"
    and l: "leads srv u' ps v"
    by (auto split: option.splits)
  from nx have ne: "u' \<noteq> []" by (rule next_of_nonempty)
  from oku bd have f: "fetch srv (get_request u) log = (Inr (Some p), log @ [get_request u])"
    by (simp add: fetch_def)
  from Cons.IH [OF l ne Cons.prems(3), of "acc @ results_of p" "log @ [get_request u]"]
  obtain reqs where
    r: "assoc_loop srv (Some u') (acc @ results_of p) (log @ [get_request u])
          = Some (Inl (HubSpotApiError (status (srv (get_request v)))),
                  (log @ [get_request u]) @ reqs @ [get_request v])"
    and nf: "\<not> failed srv reqs"
    by blast
  have "assoc_loop srv (Some u) acc log
          = Some (Inl (HubSpotApiError (status (srv (get_request v)))),
                  log @ (get_request u # reqs) @ [get_request v])"
    using f nx r Cons.prems(2) by (subst assoc_loop.simps) simp
  with nf oku show ?case
    by (intro exI [of _ "get_request u # reqs"]) simp
qed

lemma listing_served:
  "listing srv u pages \<Longrightarrow> u \<noteq> [] \<Longrightarrow>
     \<exists>reqs. assoc_loop srv (Some u) acc log
              = Some (Inr (acc @ concat (map results_of pages)), log @ reqs)
            \<and> \<not> failed srv reqs"
proof (induction pages arbitrary: u acc log)
  case Nil
  then show ?case by simp
next
  case (Cons p ps)
  from Cons.prems have oku: "ok (srv (get_request u))"
    and f: "fetch srv (get_request u) log = (Inr (Some p), log @ [get_request u])"
    by (simp_all add: fetch_def)
  show ?case
  proof (cases "next_of p")
    case None
    with Cons.prems have "ps = []" by simp
    with None f Cons.prems(2) have "assoc_loop srv (Some u) acc log
            = Some (Inr (acc @ concat (map results_of (p # ps))), log @ [get_request u])"
      by (subst assoc_loop.simps) (simp add: assoc_loop.simps)
    with oku show ?thesis
      by (intro exI [of _ "[get_request u]"]) simp
  next
    case (Some u')
    with Cons.prems have l: "listing srv u' ps" by simp
    from Some have ne: "u' \<noteq> []" by (rule next_of_nonempty)
    from Cons.IH [OF l ne, of "acc @ results_of p" "log @ [get_request u]"]
    obtain reqs where
      r: "assoc_loop srv (Some u') (acc @ results_of p) (log @ [get_request u])
            = Some (Inr ((acc @ results_of p) @ concat (map results_of ps)), (log @ [get_request u]) @ reqs)"
      and nf: "\<not> failed srv reqs"
      by blast
    have "assoc_loop srv (Some u) acc log
            = Some (Inr (acc @ concat (map results_of (p # ps))), log @ (get_request u # reqs))"
      using f Some r Cons.prems(2) by (subst assoc_loop.simps) simp
    with nf oku show ?thesis
      by (intro exI [of _ "get_request u # reqs"]) simp
  qed
qed

lemma listing_returns:
  assumes "listing srv (assoc_url d t) pages"
  shows "\<exists>reqs. getAssociations srv d t log = Some (Inr (concat (map results_of pages)), log @ reqs)
                \<and> \<not> failed srv reqs"
  using listing_served [OF assms assoc_url_nonempty, of "[]" log]
  by (simp add: getAssociations_def)

lemma batch_request_fetch:
  "ids \<noteq> [] \<Longrightarrow>
     getObjectBatch srv t ids ps log =
       (case fetch srv (batch_request t ids ps) log of
          (Inl e, log') \<Rightarrow> (Inl e, log')
        | (Inr None, log') \<Rightarrow> (Inl TypeError, log')
        | (Inr (Some data), log') \<Rightarrow> (Inr (results_of data), log'))"
  by (simp add: getObjectBatch_def batch_request_def)

lemma related_fails:
  assumes "related_gets srv d t ps rq" and "\<not> ok (srv rq)"
  shows "\<exists>reqs. getRelated srv d t ps log
                  = Some (Inl (HubSpotApiError (status (srv rq))), log @ reqs @ [rq])
                \<and> \<not> failed srv reqs"
  using assms(1) unfolding related_gets_def
proof (elim disjE exE conjE)
  fix pages
  assume l: "leads srv (assoc_url d t) pages (url rq)" and p: "payload rq = None"
  from p have rq: "get_request (url rq) = rq" by (simp add: get_request_def)
  from leads_fails [OF l assoc_url_nonempty, of "[]" log] assms(2) rq
  obtain reqs where
    "assoc_loop srv (Some (assoc_url d t)) [] log
       = Some (Inl (HubSpotApiError (status (srv rq))), log @ reqs @ [rq])"
    and "\<not> failed srv reqs"
    by auto
  then show ?thesis
    by (intro exI [of _ reqs]) (simp add: getRelated_def getAssociations_def)
next
  fix pages
  assume l: "listing srv (assoc_url d t) pages"
    and ids: "object_ids (concat (map results_of pages)) \<noteq> []"
    and rq: "rq = batch_request t (object_ids (concat (map results_of pages))) ps"
  from listing_returns [OF l, of log] obtain reqs where
    g: "getAssociations srv d t log = Some (Inr (concat (map results_of pages)), log @ reqs)"
    and nf: "\<not> failed srv reqs"
    by blast
  from assms(2) rq have "getObjectBatch srv t (object_ids (concat (map results_of pages))) ps (log @ reqs)
                    = (Inl (HubSpotApiError (status (srv rq))), (log @ reqs) @ [rq])"
    by (simp add: batch_request_fetch [OF ids] fetch_def)
  with g nf show ?thesis
    by (intro exI [of _ reqs]) (simp add: getRelated_def)
qed

lemma related_returns:
  assumes "related_serves srv d t ps rs"
  shows "\<exists>reqs. getRelated srv d t ps log = Some (Inr rs, log @ reqs) \<and> \<not> failed srv reqs"
proof -
  from assms obtain pages where l: "listing srv (assoc_url d t) pages"
    and c: "if object_ids (concat (map results_of pages)) = [] then rs = []
            else ok (srv (batch_request t (object_ids (concat (map results_of pages))) ps))
                 \<and> (\<exists>data. body (srv (batch_request t (object_ids (concat (map results_of pages))) ps))
                              = Some data \<and> rs = results_of data)"
    unfolding related_serves_def by blast
  from listing_returns [OF l, of log] obtain reqs where
    g: "getAssociations srv d t log = Some (Inr (concat (map results_of pages)), log @ reqs)"
    and nf: "\<not> failed srv reqs"
    by blast
  show ?thesis
  proof (cases "object_ids (concat (map results_of pages)) = []")
    case True
    with c g nf show ?thesis
      by (intro exI [of _ reqs]) (simp add: getRelated_def getObjectBatch_def)
  next
    case False
    let ?rq = "batch_request t (object_ids (concat (map results_of pages))) ps"
    from False c obtain data where k: "ok (srv ?rq)" and bd: "body (srv ?rq) = Some data"
      and rs: "rs = results_of data"
      by auto
    then have "getObjectBatch srv t (object_ids (concat (map results_of pages))) ps (log @ reqs)
                 = (Inr rs, (log @ reqs) @ [?rq])"
      by (simp add: batch_request_fetch [OF False] fetch_def)
    with g nf k show ?thesis
      by (intro exI [of _ "reqs @ [?rq]"]) (simp add: getRelated_def)
  qed
qed

lemma engagements_loop_step:
  "engagements_loop srv d ((t, ps) # cfg) acc log =
     (case getRelated srv d t ps log of
        None \<Rightarrow> None
      | Some (Inl e, l) \<Rightarrow> Some (Inl e, l)
      | Some (Inr details, l) \<Rightarrow>
          engagements_loop srv d cfg (acc @ map (\<lambda>x. x\<lparr>engagement_type := Some t\<rparr>) details) l)"
  by (auto simp: getRelated_def getObjectBatch_def split: option.splits sum.splits prod.splits)

lemma engagements_loop_fails:
  assumes "list_all (\<lambda>c. \<exists>rs. related_serves srv d (fst c) (snd c) rs) before"
    and "related_gets srv d t ps rq" and "\<not> ok (srv rq)"
  shows "\<exists>reqs. engagements_loop srv d (before @ (t, ps) # after) acc log
                  = Some (Inl (HubSpotApiError (status (srv rq))), log @ reqs @ [rq])
                \<and> \<not> failed srv reqs"
  using assms(1)
proof (induction before arbitrary: acc log)
  case Nil
  from related_fails [OF assms(2,3), of log] show ?case
    by (auto simp: engagements_loop_step simp del: engagements_loop.simps)
next
  case (Cons c before)
  obtain t' ps' where c: "c = (t', ps')" by (cases c)
  from Cons.prems c obtain rs where s: "related_serves srv d t' ps' rs"
    and rest: "list_all (\<lambda>c. \<exists>rs. related_serves srv d (fst c) (snd c) rs) before"
    by auto
  from related_returns [OF s, of log] obtain reqs1 where
    g: "getRelated srv d t' ps' log = Some (Inr rs, log @ reqs1)" and nf1: "\<not> failed srv reqs1"
    by blast
  from Cons.IH [OF rest, of "acc @ map (\<lambda>x. x\<lparr>engagement_type := Some t'\<rparr>) rs" "log @ reqs1"]
  obtain reqs2 where
    e: "engagements_loop srv d (before @ (t, ps) # after)
          (acc @ map (\<lambda>x. x\<lparr>engagement_type := Some t'\<rparr>) rs) (log @ reqs1)
        = Some (Inl (HubSpotApiError (status (srv rq))), (log @ reqs1) @ reqs2 @ [rq])"
    and nf2: "\<not> failed srv reqs2"
    by blast
  have "engagements_loop srv d ((c # before) @ (t, ps) # after) acc log
          = Some (Inl (HubSpotApiError (status (srv rq))), log @ (reqs1 @ reqs2) @ [rq])"
    using g e unfolding c by (simp add: engagements_loop_step del: engagements_loop.simps)
  with nf1 nf2 show ?case
    by (intro exI [of _ "reqs1 @ reqs2"]) simp
qed

lemma deal_served_getDeal:
  "deal_served srv d \<Longrightarrow> \<exists>deal l. getDeal srv d [] = (Inr (Some deal), l)"
  by (auto simp: deal_served_def getDeal_def fetch_def)

text \<open>
  C2, as the code has it. Let the service answer the request \<open>rq\<close> with a response that
  is not ok.
  \<^item> \<open>rq\<close> is the deal request: \<^verbatim>\<open>getDeal\<close> raises the HubSpot API error of the
    response's status, \<open>rq\<close> being its only request, and the run ends with that error.
  \<^item> The deal is served and the contact task gets the response to \<open>rq\<close>, as one of its
    association pages or as its batch read: the task returns the error of the response's
    status; \<open>rq\<close> is its last request and no request before it had failed, so nothing is
    asked again. The run ends with an error: this one, unless the company task, which
    runs side by side with it, is rejected as well and its rejection arrives first.
  \<^item> The same for the company task, with the contact task as the other one.
  \<^item> The deal, the contacts and the companies are served and the engagement task gets the
    response to \<open>rq\<close>: the task returns the error, \<open>rq\<close> being its last request, and the
    run ends with that error.

  In every case the run returns an error and no document. The conditions are on the
  service alone: that the tasks and the run return is part of the statement.
\<close>

theorem fetch_error_aborts_run:
  assumes "\<not> ok (srv rq)"
  shows
    "(rq = get_request (deal_url dealId) \<longrightarrow>
        getDeal srv dealId [] = (Inl (HubSpotApiError (status (srv rq))), [rq])
        \<and> assemble_run srv b first dealId = Some (Inl (HubSpotApiError (status (srv rq)))))
     \<and> (deal_served srv dealId
          \<and> related_gets srv dealId ''contacts''
               [''firstname'', ''lastname'', ''email'', ''phone'', ''company''] rq \<longrightarrow>
        (\<exists>reqs. getContacts srv dealId []
                  = Some (Inl (HubSpotApiError (status (srv rq))), reqs @ [rq])
                \<and> \<not> failed srv reqs)
        \<and> assemble_run srv b first dealId
            = Some (Inl (case getCompanies srv dealId [] of
                           Some (Inl e2, l2) \<Rightarrow>
                             if first then HubSpotApiError (status (srv rq)) else e2
                         | _ \<Rightarrow> HubSpotApiError (status (srv rq)))))
     \<and> (deal_served srv dealId
          \<and> related_gets srv dealId ''companies'' [''name'', ''domain'', ''industry''] rq \<longrightarrow>
        (\<exists>reqs. getCompanies srv dealId []
                  = Some (Inl (HubSpotApiError (status (srv rq))), reqs @ [rq])
                \<and> \<not> failed srv reqs)
        \<and> assemble_run srv b first dealId
            = Some (Inl (case getContacts srv dealId [] of
                           Some (Inl e1, l1) \<Rightarrow>
                             if first then e1 else HubSpotApiError (status (srv rq))
                         | _ \<Rightarrow> HubSpotApiError (status (srv rq)))))
     \<and> (deal_served srv dealId
          \<and> (\<exists>cs. related_serves srv dealId ''contacts''
                     [''firstname'', ''lastname'', ''email'', ''phone'', ''company''] cs)
          \<and> (\<exists>cos. related_serves srv dealId ''companies'' [''name'', ''domain'', ''industry''] cos)
          \<and> engagements_get srv dealId rq \<longrightarrow>
        (\<exists>reqs. getAllEngagements srv dealId []
                  = Some (Inl (HubSpotApiError (status (srv rq))), reqs @ [rq])
                \<and> \<not> failed srv reqs)
        \<and> assemble_run srv b first dealId = Some (Inl (HubSpotApiError (status (srv rq)))))"
proof -
  let ?e = "HubSpotApiError (status (srv rq))"
  have deal: "getDeal srv dealId [] = (Inl ?e, [rq]) \<and> assemble_run srv b first dealId = Some (Inl ?e)"
    if "rq = get_request (deal_url dealId)"
    using that assms by (simp add: getDeal_def fetch_def assemble_run_def)
  have contacts: "(\<exists>reqs. getContacts srv dealId [] = Some (Inl ?e, reqs @ [rq]) \<and> \<not> failed srv reqs)
        \<and> assemble_run srv b first dealId
            = Some (Inl (case getCompanies srv dealId [] of
                           Some (Inl e2, l2) \<Rightarrow> if first then ?e else e2
                         | _ \<Rightarrow> ?e))"
    if d: "deal_served srv dealId"
      and g: "related_gets srv dealId ''contacts''
               [''firstname'', ''lastname'', ''email'', ''phone'', ''company''] rq"
  proof -
    from related_fails [OF g assms, of "[]"] obtain reqs where
      c: "getContacts srv dealId [] = Some (Inl ?e, reqs @ [rq])" and nf: "\<not> failed srv reqs"
      by (auto simp: getContacts_def)
    from deal_served_getDeal [OF d] obtain deal l where "getDeal srv dealId [] = (Inr (Some deal), l)"
      by blast
    with c have "assemble_run srv b first dealId
            = Some (Inl (case getCompanies srv dealId [] of
                           Some (Inl e2, l2) \<Rightarrow> if first then ?e else e2
                         | _ \<Rightarrow> ?e))"
      by (simp add: assemble_run_def promise_all_def split: option.splits sum.splits prod.splits)
    with c nf show ?thesis by blast
  qed
  have companies: "(\<exists>reqs. getCompanies srv dealId [] = Some (Inl ?e, reqs @ [rq]) \<and> \<not> failed srv reqs)
        \<and> assemble_run srv b first dealId
            = Some (Inl (case getContacts srv dealId [] of
                           Some (Inl e1, l1) \<Rightarrow> if first then e1 else ?e
                         | _ \<Rightarrow> ?e))"
    if d: "deal_served srv dealId"
      and g: "related_gets srv dealId ''companies'' [''name'', ''domain'', ''industry''] rq"
  proof -
    from related_fails [OF g assms, of "[]"] obtain reqs where
      c: "getCompanies srv dealId [] = Some (Inl ?e, reqs @ [rq])" and nf: "\<not> failed srv reqs"
      by (auto simp: getCompanies_def)
    from deal_served_getDeal [OF d] obtain deal l where "getDeal srv dealId [] = (Inr (Some deal), l)"
      by blast
    with c have "assemble_run srv b first dealId
            = Some (Inl (case getContacts srv dealId [] of
                           Some (Inl e1, l1) \<Rightarrow> if first then e1 else ?e
                         | _ \<Rightarrow> ?e))"
      by (simp add: assemble_run_def promise_all_def split: option.splits sum.splits prod.splits)
    with c nf show ?thesis by blast
  qed
  have engagements: "(\<exists>reqs. getAllEngagements srv dealId [] = Some (Inl ?e, reqs @ [rq])
                       \<and> \<not> failed srv reqs)
        \<and> assemble_run srv b first dealId = Some (Inl ?e)"
    if d: "deal_served srv dealId"
      and s1: "\<exists>cs. related_serves srv dealId ''contacts''
                     [''firstname'', ''lastname'', ''email'', ''phone'', ''company''] cs"
      and s2: "\<exists>cos. related_serves srv dealId ''companies'' [''name'', ''domain'', ''industry''] cos"
      and g: "engagements_get srv dealId rq"
  proof -
    from g obtain before t ps after where cfg: "engagementConfig = before @ (t, ps) # after"
      and sv: "list_all (\<lambda>c. \<exists>rs. related_serves srv dealId (fst c) (snd c) rs) before"
      and rg: "related_gets srv dealId t ps rq"
      unfolding engagements_get_def by blast
    from engagements_loop_fails [OF sv rg assms, of after "[]" "[]"] cfg
    obtain reqs where
      e: "getAllEngagements srv dealId [] = Some (Inl ?e, reqs @ [rq])" and nf: "\<not> failed srv reqs"
      by (auto simp: getAllEngagements_def)
    from s1 obtain cs where "related_serves srv dealId ''contacts''
                     [''firstname'', ''lastname'', ''email'', ''phone'', ''company''] cs" ..
    from related_returns [OF this, of "[]"] obtain l1 where
      c1: "getContacts srv dealId [] = Some (Inr cs, l1)"
      by (auto simp: getContacts_def)
    from s2 obtain cos where "related_serves srv dealId ''companies''
                     [''name'', ''domain'', ''industry''] cos" ..
    from related_returns [OF this, of "[]"] obtain l2 where
      c2: "getCompanies srv dealId [] = Some (Inr cos, l2)"
      by (auto simp: getCompanies_def)
    from deal_served_getDeal [OF d] obtain deal l where "getDeal srv dealId [] = (Inr (Some deal), l)"
      by blast
    with c1 c2 e have "assemble_run srv b first dealId = Some (Inl ?e)"
      by (simp add: assemble_run_def promise_all_def)
    with e nf show ?thesis by blast
  qed
  show ?thesis
  proof (intro conjI)
    show "rq = get_request (deal_url dealId) \<longrightarrow>
        getDeal srv dealId [] = (Inl ?e, [rq]) \<and> assemble_run srv b first dealId = Some (Inl ?e)"
      using deal by blast
  next
    show "deal_served srv dealId
          \<and> related_gets srv dealId ''contacts''
               [''firstname'', ''lastname'', ''email'', ''phone'', ''company''] rq \<longrightarrow>
        (\<exists>reqs. getContacts srv dealId [] = Some (Inl ?e, reqs @ [rq]) \<and> \<not> failed srv reqs)
        \<and> assemble_run srv b first dealId
            = Some (Inl (case getCompanies srv dealId [] of
                           Some (Inl e2, l2) \<Rightarrow> if first then ?e else e2
                         | _ \<Rightarrow> ?e))"
      using contacts by blast
  next
    show "deal_served srv dealId
          \<and> related_gets srv dealId ''companies'' [''name'', ''domain'', ''industry''] rq \<longrightarrow>
        (\<exists>reqs. getCompanies srv dealId [] = Some (Inl ?e, reqs @ [rq]) \<and> \<not> failed srv reqs)
        \<and> assemble_run srv b first dealId
            = Some (Inl (case getContacts srv dealId [] of
                           Some (Inl e1, l1) \<Rightarrow> if first then e1 else ?e
                         | _ \<Rightarrow> ?e))"
      using companies by blast
  next
    show "deal_served srv dealId
          \<and> (\<exists>cs. related_serves srv dealId ''contacts''
                     [''firstname'', ''lastname'', ''email'', ''phone'', ''company''] cs)
          \<and> (\<exists>cos. related_serves srv dealId ''companies'' [''name'', ''domain'', ''industry''] cos)
          \<and> engagements_get srv dealId rq \<longrightarrow>
        (\<exists>reqs. getAllEngagements srv dealId [] = Some (Inl ?e, reqs @ [rq]) \<and> \<not> failed srv reqs)
        \<and> assemble_run srv b first dealId = Some (Inl ?e)"
      using engagements by blast
  qed
qed

lemma sample_deal_served: "deal_served sample_server ''42''"
  by (simp add: deal_served_def sample_eval)

lemma sample_contacts_served:
  "related_serves sample_server ''42'' ''contacts''
     [''firstname'', ''lastname'', ''email'', ''phone'', ''company'']
     [sample_object ''101'' None [(''firstname'', ''Ada'')]]"
  unfolding related_serves_def
  by (rule exI [of _ "[page [edge 101, edge 102] (Some ''https://api.hubapi.com/page2''),
                        page [edge 103] None]"])
     (simp add: sample_listing, simp add: batch_request_def sample_eval)

lemma sample_companies_served:
  "related_serves sample_server ''42'' ''companies'' [''name'', ''domain'', ''industry''] []"
  unfolding related_serves_def
  by (rule exI [of _ "[page [] None]"]) (simp add: sample_eval)

lemma sample_emails_get:
  "engagements_get sample_server ''42'' (get_request (assoc_url ''42'' ''emails''))"
  unfolding engagements_get_def
  apply (rule exI [of _ "[]"])
  apply (rule exI [of _ "''emails''"])
  apply (simp add: engagementConfig_def related_gets_def)
  apply (rule disjI1)
  apply (rule conjI)
   apply (rule exI [of _ "[]"])
   apply (simp add: get_request_def)
  apply (simp add: get_request_def)
  done

lemma busy_deal_served: "deal_served busy_server ''42''"
  by (simp add: deal_served_def busy_server_def ok_def get_request_def deal_url_def assoc_url_def)

lemma busy_contacts_get:
  "related_gets busy_server ''42'' ''contacts''
     [''firstname'', ''lastname'', ''email'', ''phone'', ''company'']
     (get_request (assoc_url ''42'' ''contacts''))"
  unfolding related_gets_def
  by (rule disjI1, rule exI [of _ "[]"]) (simp add: get_request_def)

lemma busy_companies:
  "getCompanies busy_server ''42'' []
     = Some (Inl (HubSpotApiError 503), [get_request (assoc_url ''42'' ''companies'')])"
  by (simp add: getCompanies_def getRelated_def getAssociations_def assoc_loop.simps fetch_def
      busy_server_def ok_def get_request_def deal_url_def assoc_url_def HUBSPOT_BASE_URL_def)

theorem fetch_error_aborts_run_witness:
  "\<not> ok (sample_server (get_request (assoc_url ''42'' ''emails'')))
   \<and> deal_served sample_server ''42''
   \<and> related_serves sample_server ''42'' ''contacts''
        [''firstname'', ''lastname'', ''email'', ''phone'', ''company'']
        [sample_object ''101'' None [(''firstname'', ''Ada'')]]
   \<and> related_serves sample_server ''42'' ''companies'' [''name'', ''domain'', ''industry''] []
   \<and> engagements_get sample_server ''42'' (get_request (assoc_url ''42'' ''emails''))
   \<and> (\<exists>reqs. getAllEngagements sample_server ''42'' []
                = Some (Inl (HubSpotApiError 429), reqs @ [get_request (assoc_url ''42'' ''emails'')])
              \<and> \<not> failed sample_server reqs)
   \<and> assemble_run sample_server plain_browser True ''42'' = Some (Inl (HubSpotApiError 429))
   \<and> \<not> ok (busy_server (get_request (assoc_url ''42'' ''contacts'')))
   \<and> deal_served busy_server ''42''
   \<and> related_gets busy_server ''42'' ''contacts''
        [''firstname'', ''lastname'', ''email'', ''phone'', ''company'']
        (get_request (assoc_url ''42'' ''contacts''))
   \<and> (\<exists>reqs. getContacts busy_server ''42'' []
                = Some (Inl (HubSpotApiError 500), reqs @ [get_request (assoc_url ''42'' ''contacts'')])
              \<and> \<not> failed busy_server reqs)
   \<and> assemble_run busy_server plain_browser True ''42'' = Some (Inl (HubSpotApiError 500))
   \<and> assemble_run busy_server plain_browser False ''42'' = Some (Inl (HubSpotApiError 503))"
proof -
  have s: "status (sample_server (get_request (assoc_url ''42'' ''emails''))) = 429"
    and n: "\<not> ok (sample_server (get_request (assoc_url ''42'' ''emails'')))"
    by (simp_all add: sample_eval)
  have s': "status (busy_server (get_request (assoc_url ''42'' ''contacts''))) = 500"
    and n': "\<not> ok (busy_server (get_request (assoc_url ''42'' ''contacts'')))"
    by (simp_all add: busy_server_def ok_def get_request_def deal_url_def assoc_url_def)
  from fetch_error_aborts_run
    [of sample_server "get_request (assoc_url ''42'' ''emails'')" "''42''" plain_browser True, OF n]
    sample_deal_served sample_contacts_served sample_companies_served sample_emails_get
  have a: "(\<exists>reqs. getAllEngagements sample_server ''42'' []
                = Some (Inl (HubSpotApiError 429), reqs @ [get_request (assoc_url ''42'' ''emails'')])
              \<and> \<not> failed sample_server reqs)
   \<and> assemble_run sample_server plain_browser True ''42'' = Some (Inl (HubSpotApiError 429))"
    unfolding s by blast
  from fetch_error_aborts_run
    [of busy_server "get_request (assoc_url ''42'' ''contacts'')" "''42''" plain_browser True, OF n']
    busy_deal_served busy_contacts_get
  have b: "(\<exists>reqs. getContacts busy_server ''42'' []
                = Some (Inl (HubSpotApiError 500), reqs @ [get_request (assoc_url ''42'' ''contacts'')])
              \<and> \<not> failed busy_server reqs)
   \<and> assemble_run busy_server plain_browser True ''42'' = Some (Inl (HubSpotApiError 500))"
    unfolding s' busy_companies by simp
  from fetch_error_aborts_run
    [of busy_server "get_request (assoc_url ''42'' ''contacts'')" "''42''" plain_browser False, OF n']
    busy_deal_served busy_contacts_get
  have c: "assemble_run busy_server plain_browser False ''42'' = Some (Inl (HubSpotApiError 503))"
    unfolding s' busy_companies by simp
  from n n' a b c sample_deal_served sample_contacts_served sample_companies_served
    sample_emails_get busy_deal_served busy_contacts_get
  show ?thesis by blast
qed

text \<open>
  The claim has every non-success response surfaced. On the service whose contact
  associations answer 500 and whose company associations answer 503, the company task
  gets a non-success response and raises the error of status 503, and the run, the
  rejection of the contact task arriving first, ends with the error of status 500: the
  error of the company task is not shown.
\<close>

theorem unsurfaced_error_counterexample:
  "\<not> ok (busy_server (get_request (assoc_url ''42'' ''companies'')))
   \<and> getCompanies busy_server ''42'' []
       = Some (Inl (HubSpotApiError 503), [get_request (assoc_url ''42'' ''companies'')])
   \<and> getContacts busy_server ''42'' []
       = Some (Inl (HubSpotApiError 500), [get_request (assoc_url ''42'' ''contacts'')])
   \<and> assemble_run busy_server plain_browser True ''42'' = Some (Inl (HubSpotApiError 500))
   \<and> assemble_run busy_server plain_browser True ''42'' \<noteq> Some (Inl (HubSpotApiError 503))"
  by (simp add: assemble_run_def promise_all_def getDeal_def getContacts_def getCompanies_def
      getRelated_def getAssociations_def assoc_loop.simps fetch_def
      busy_server_def ok_def get_request_def deal_url_def assoc_url_def HUBSPOT_BASE_URL_def)

section \<open>Matches are parts of the text\<close>

lemma lit_suffix: "e \<in> set (lit w pv s) \<Longrightarrow> suffix (snd e) s"
  by (induction w pv s rule: lit.induct) (auto split: if_splits intro: suffix_ConsI)

lemma rep_suffix: "e \<in> set (rep p g lo hi pv s) \<Longrightarrow> suffix (snd e) s"
  by (induction s arbitrary: lo hi pv)
     (auto simp: Let_def split: if_splits intro: suffix_ConsI)

lemma ends_suffix: "e \<in> set (ends r st) \<Longrightarrow> suffix (snd e) (snd st)"
proof (induction r st arbitrary: e rule: ends.induct)
  case (5 r rs st)
  then obtain m where m: "m \<in> set (ends r st)" and e: "e \<in> set (ends (Cat rs) m)"
    by auto
  from "5.IH"(1) [OF m] "5.IH"(2) [OF m e] show ?case
    by (rule suffix_order.trans [rotated])
qed (auto simp: lit_suffix rep_suffix split: list.splits option.splits if_splits intro: suffix_ConsI)

lemma suffix_take: "suffix t s \<Longrightarrow> take (length s - length t) s @ t = s"
  by (auto simp: suffix_def)

lemma matchAll_sublist: "m \<in> set (matchAll r pv s) \<Longrightarrow> sublist m s"
proof (induction r pv s rule: matchAll.induct)
  case (1 r pv s)
  show ?case
  proof (cases "ends r (pv, s)")
    case Nil
    show ?thesis
    proof (cases s)
      case Nil
      with \<open>ends r (pv, s) = []\<close> "1.prems" show ?thesis
        by (subst (asm) matchAll.simps) simp
    next
      case (Cons c cs)
      with \<open>ends r (pv, s) = []\<close> "1.prems" have "m \<in> set (matchAll r (Some c) cs)"
        by (subst (asm) matchAll.simps) simp
      with "1.IH"(1) [OF \<open>ends r (pv, s) = []\<close> Cons] have "sublist m cs" by simp
      with Cons show ?thesis by (simp add: sublist_Cons_right)
    qed
  next
    case (Cons e es)
    then have "e \<in> set (ends r (pv, s))" by simp
    then have sf: "suffix (snd e) s" by (auto dest: ends_suffix)
    show ?thesis
    proof (cases "length (snd e) < length s")
      case True
      with "1.prems" Cons have "m = take (length s - length (snd e)) s \<or> m \<in> set (matchAll r (fst e) (snd e))"
        by (subst (asm) matchAll.simps) auto
      then show ?thesis
      proof
        assume "m = take (length s - length (snd e)) s"
        then show ?thesis by (metis prefix_imp_sublist take_is_prefix)
      next
        assume "m \<in> set (matchAll r (fst e) (snd e))"
        with "1.IH"(2) [OF Cons True] have "sublist m (snd e)" by simp
        with sf show ?thesis
          by (meson sublist_order.order_trans suffix_imp_sublist)
      qed
    next
      case False
      with "1.prems" Cons have "m = [] \<or> (\<exists>c cs. s = c # cs \<and> m \<in> set (matchAll r (Some c) cs))"
        by (subst (asm) matchAll.simps) (auto split: list.splits)
      then show ?thesis
      proof
        assume "m = []"
        then show ?thesis by simp
      next
        assume "\<exists>c cs. s = c # cs \<and> m \<in> set (matchAll r (Some c) cs)"
        then obtain c cs where s: "s = c # cs" and m: "m \<in> set (matchAll r (Some c) cs)" by blast
        from "1.IH"(3) [OF Cons False s] m have "sublist m cs" by simp
        with s show ?thesis by (simp add: sublist_Cons_right)
      qed
    qed
  qed
qed

lemma rx_trailing_end: "e \<in> set (ends rx_trailing st) \<Longrightarrow> snd e = []"
  by (cases st) (auto simp: rx_trailing_def split: list.splits)

lemma strip_prefix: "prefix (replaceFirst rx_trailing erase pv s) s"
proof (induction s arbitrary: pv)
  case Nil
  show ?case
  proof (cases "ends rx_trailing (pv, [])")
    case Nil
    then show ?thesis by (simp add: replaceFirst.simps)
  next
    case (Cons e es)
    then have "e \<in> set (ends rx_trailing (pv, []))" by simp
    then have "snd e = []" by (rule rx_trailing_end)
    with Cons show ?thesis by (simp add: replaceFirst.simps erase_def)
  qed
next
  case (Cons c cs)
  show ?case
  proof (cases "ends rx_trailing (pv, c # cs)")
    case Nil
    with Cons.IH [of "Some c"] show ?thesis by (simp add: replaceFirst.simps [of _ _ _ "c # cs"])
  next
    case (Cons e es)
    then have "e \<in> set (ends rx_trailing (pv, c # cs))" by simp
    then have "snd e = []" by (rule rx_trailing_end)
    with Cons show ?thesis by (simp add: replaceFirst.simps [of _ _ _ "c # cs"] erase_def)
  qed
qed

lemma set_uniq: "set (uniq xs) = set xs"
proof -
  have "set (foldl (\<lambda>acc x. if x \<in> set acc then acc else acc @ [x]) acc xs) = set acc \<union> set xs" for acc
    by (induction xs arbitrary: acc) auto
  then show ?thesis by (simp add: uniq_def)
qed

lemma distinct_uniq: "distinct (uniq xs)"
proof -
  have "distinct acc \<Longrightarrow> distinct (foldl (\<lambda>acc x. if x \<in> set acc then acc else acc @ [x]) acc xs)" for acc
    by (induction xs arbitrary: acc) auto
  then show ?thesis by (simp add: uniq_def)
qed

lemma distinct_extractUrls: "distinct (extractUrlsFromContent c)"
  by (simp add: extractUrlsFromContent_def distinct_uniq)

lemma extractUrls_sublist: "u \<in> set (extractUrlsFromContent c) \<Longrightarrow> sublist u c"
proof -
  assume "u \<in> set (extractUrlsFromContent c)"
  then obtain m where m: "m \<in> set (matchAll urlPattern None c)"
    and u: "u = replaceFirst rx_trailing erase None m"
    by (auto simp: extractUrlsFromContent_def set_uniq split: if_splits)
  from u have "prefix u m" by (simp add: strip_prefix)
  then have "sublist u m" by (rule prefix_imp_sublist)
  with matchAll_sublist [OF m] show ?thesis
    by (meson sublist_order.order_trans)
qed

section \<open>The collected index\<close>

lemma push_context_map_of:
  "map_of (push_context u c idx)
     = (map_of idx)(u \<mapsto> (case map_of idx u of None \<Rightarrow> [c] | Some cs \<Rightarrow> cs @ [c]))"
  by (induction idx) (auto simp: fun_eq_iff)

lemma push_context_keys:
  "map fst (push_context u c idx)
     = (if u \<in> set (map fst idx) then map fst idx else map fst idx @ [u])"
  by (induction idx) (force split: if_splits)+

lemma push_context_distinct:
  "distinct (map fst idx) \<Longrightarrow> distinct (map fst (push_context u c idx))"
  by (simp add: push_context_keys)

lemma push_all_distinct:
  "distinct (map fst idx) \<Longrightarrow>
     distinct (map fst (foldl (\<lambda>acc url. push_context url c acc) idx urls))"
  by (induction urls arbitrary: idx) (simp_all add: push_context_distinct)

lemma push_all_map_of:
  "distinct urls \<Longrightarrow>
     map_of (foldl (\<lambda>acc url. push_context url c acc) idx urls) v
       = (if v \<in> set urls
          then Some ((case map_of idx v of None \<Rightarrow> [] | Some cs \<Rightarrow> cs) @ [c])
          else map_of idx v)"
proof (induction urls arbitrary: idx)
  case Nil
  then show ?case by simp
next
  case (Cons u urls)
  then show ?case
    by (auto simp: push_context_map_of split: option.splits)
qed

lemma collect_one_distinct:
  "distinct (map fst idx) \<Longrightarrow> distinct (map fst (collect_one idx eng))"
  by (simp add: collect_one_def push_all_distinct)

lemma collect_one_map_of:
  "map_of (collect_one idx eng) v
     = (if v \<in> set (extractUrlsFromContent (engagement_content eng))
        then Some ((case map_of idx v of None \<Rightarrow> [] | Some cs \<Rightarrow> cs) @ [engagement_context eng])
        else map_of idx v)"
  by (simp add: collect_one_def push_all_map_of distinct_extractUrls)

lemma collect_distinct:
  "distinct (map fst idx) \<Longrightarrow> distinct (map fst (foldl collect_one idx engs))"
  by (induction engs arbitrary: idx) (simp_all add: collect_one_distinct)

lemma collect_map_of:
  "map_of (foldl collect_one idx engs) v
     = (if list_ex (\<lambda>e. v \<in> set (extractUrlsFromContent (engagement_content e))) engs
        then Some ((case map_of idx v of None \<Rightarrow> [] | Some cs \<Rightarrow> cs)
                   @ map engagement_context
                       (filter (\<lambda>e. v \<in> set (extractUrlsFromContent (engagement_content e))) engs))
        else map_of idx v)"
proof (induction engs arbitrary: idx)
  case Nil
  then show ?case by simp
next
  case (Cons e engs)
  show ?case
    by (auto simp: Cons.IH collect_one_map_of list_ex_iff filter_empty_conv)
qed

lemma collectAllUrls_distinct: "distinct (map fst (collectAllUrls engs))"
  by (simp add: collectAllUrls_def collect_distinct)

lemma collectAllUrls_map_of:
  "map_of (collectAllUrls engs) v
     = (if list_ex (\<lambda>e. v \<in> set (extractUrlsFromContent (engagement_content e))) engs
        then Some (map engagement_context
                     (filter (\<lambda>e. v \<in> set (extractUrlsFromContent (engagement_content e))) engs))
        else None)"
  by (simp add: collectAllUrls_def collect_map_of)

lemma collectAllUrls_entry:
  "(u, ctxs) \<in> set (collectAllUrls engs) \<Longrightarrow>
     ctxs = map engagement_context
              (filter (\<lambda>e. u \<in> set (extractUrlsFromContent (engagement_content e))) engs)"
proof -
  assume "(u, ctxs) \<in> set (collectAllUrls engs)"
  with collectAllUrls_distinct have "map_of (collectAllUrls engs) u = Some ctxs"
    by (rule map_of_is_SomeI)
  then show ?thesis
    by (simp add: collectAllUrls_map_of split: if_splits)
qed

text \<open>
  C4, as the code has it. URLs are extracted from the raw content of a record, which is
  not sanitized. The collected index has one entry per URL; the contexts of a URL are
  the labels of the records whose raw content yields it, in the order of the records.
  The label of a record depends only on its category and on its timestamp, subject and
  title properties.
\<close>

theorem collectAllUrls_raw_content:
  "distinct (map fst (collectAllUrls engs))
   \<and> map_of (collectAllUrls engs) u
       = (if list_ex (\<lambda>e. u \<in> set (extractUrlsFromContent (engagement_content e))) engs
          then Some (map engagement_context
                 (filter (\<lambda>e. u \<in> set (extractUrlsFromContent (engagement_content e))) engs))
          else None)
   \<and> (engagement_type e = engagement_type e'
        \<and> map (props_of e) label_properties = map (props_of e') label_properties
      \<longrightarrow> engagement_context e = engagement_context e')"
  by (simp add: collectAllUrls_distinct collectAllUrls_map_of engagement_context_def
        label_properties_def Let_def)

theorem collectAllUrls_raw_content_witness:
  "engagement_type (sample_links ! 0) = engagement_type (sample_links ! 1)
   \<and> map (props_of (sample_links ! 0)) label_properties
       = map (props_of (sample_links ! 1)) label_properties
   \<and> engagement_context (sample_links ! 0) = engagement_context (sample_links ! 1)
   \<and> map_of (collectAllUrls sample_links) ''http://example.com/y''
       = Some [''Note (2023-11-14 22:13)'', ''Note (2023-11-14 22:13)'']"
proof -
  have h: "engagement_type (sample_links ! 0) = engagement_type (sample_links ! 1)
           \<and> map (props_of (sample_links ! 0)) label_properties
               = map (props_of (sample_links ! 1)) label_properties"
    by code_simp
  have v: "map_of (collectAllUrls sample_links) ''http://example.com/y''
       = Some [''Note (2023-11-14 22:13)'', ''Note (2023-11-14 22:13)'']"
    by code_simp
  from collectAllUrls_raw_content [of sample_links _ "sample_links ! 0" "sample_links ! 1"] h v
  show ?thesis by blast
qed

text \<open>
  C4 as stated fails: on the email of the specification's scenario the code finds the
  URL in the raw HTML, while the sanitized text has lost it and yields none.
\<close>

theorem sanitized_extraction_counterexample:
  "collectAllUrls [sample_email]
     = [(''http://docs.google.com/abc'', [''Email: Demo (2023-11-14 22:13)''])]
   \<and> stripHtml plain_browser (Some (engagement_content sample_email)) True = ''Loved the demo! See''
   \<and> spec_collectAllUrls plain_browser [sample_email] = []"
  by code_simp

text \<open>
  C10. The URLs extracted from one content are distinct, so a record adds at most one
  context to a URL: the contexts of a collected URL are the labels of the records whose
  content yields it, one per record, and there are no more of them than records whose
  content contains the URL.
\<close>

theorem one_context_per_record:
  "distinct (extractUrlsFromContent c)
   \<and> ((u, ctxs) \<in> set (collectAllUrls engs) \<longrightarrow>
        ctxs = map engagement_context
                 (filter (\<lambda>e. u \<in> set (extractUrlsFromContent (engagement_content e))) engs)
        \<and> length ctxs \<le> length (filter (\<lambda>e. sublist u (engagement_content e)) engs))"
proof (intro conjI impI)
  show "distinct (extractUrlsFromContent c)"
    by (rule distinct_extractUrls)
next
  assume a: "(u, ctxs) \<in> set (collectAllUrls engs)"
  then show c: "ctxs = map engagement_context
                 (filter (\<lambda>e. u \<in> set (extractUrlsFromContent (engagement_content e))) engs)"
    by (rule collectAllUrls_entry)
  have "length (filter (\<lambda>e. u \<in> set (extractUrlsFromContent (engagement_content e))) engs)
          \<le> length (filter (\<lambda>e. sublist u (engagement_content e)) engs)"
    by (induction engs) (auto dest: extractUrls_sublist)
  with c show "length ctxs \<le> length (filter (\<lambda>e. sublist u (engagement_content e)) engs)"
    by simp
qed

theorem one_context_per_record_witness:
  "(''http://a.com/b'', [''Note (2023-11-14 22:13)'']) \<in> set (collectAllUrls sample_repeat)
   \<and> [''Note (2023-11-14 22:13)'']
       = map engagement_context
           (filter (\<lambda>e. ''http://a.com/b'' \<in> set (extractUrlsFromContent (engagement_content e)))
              sample_repeat)
   \<and> length [''Note (2023-11-14 22:13)'']
       \<le> length (filter (\<lambda>e. sublist ''http://a.com/b'' (engagement_content e)) sample_repeat)"
proof -
  have m: "(''http://a.com/b'', [''Note (2023-11-14 22:13)'']) \<in> set (collectAllUrls sample_repeat)"
    by code_simp
  from one_context_per_record [of "[]" "''http://a.com/b''" "[''Note (2023-11-14 22:13)'']" sample_repeat] m
  show ?thesis by blast
qed

section \<open>Sanitization of wrapped URLs\<close>

text \<open>
  C3, at the input of the claim. Whatever the decoder does elsewhere, if it leaves the
  detagged text as it is (the text has no character reference), then with
  \<open>preserveUrls\<close> the wrapped URL is gone from the result: the tag pattern of line 1202
  has replaced \<^verbatim>\<open><https://docs.google.com/x>\<close> by a space before line 1209 could unwrap
  it. Without \<open>preserveUrls\<close> neither URL is left.
\<close>

theorem stripHtml_loses_wrapped_url:
  assumes "decodeEntities b ''Check   and http://example.com/y.'' = ''Check   and http://example.com/y.''"
  shows "stripHtml b (Some ''Check <https://docs.google.com/x> and http://example.com/y.'') True
           = ''Check and http://example.com/y.''
         \<and> stripHtml b (Some ''Check <https://docs.google.com/x> and http://example.com/y.'') False
           = ''Check and''"
proof -
  have t: "replaceAll rx_tag (\<lambda>w. '' '') None ''Check <https://docs.google.com/x> and http://example.com/y.''
             = ''Check   and http://example.com/y.''"
    by code_simp
  have p: "trim (replaceAll rx_blank_lines (\<lambda>w. [nl, nl]) None
            (replaceAll rx_blanks (\<lambda>w. '' '') None
            (replaceAll rx_newlines3 (\<lambda>w. [nl, nl]) None
            (replaceAll rx_header_line erase None
            (replaceAll rx_quote_line erase None
            (replaceAll rx_quoted_reply erase None
            (replaceAll rx_phone_line erase None
            (replaceAll rx_email_line erase None
            (replaceAll rx_wrapped_url unwrap None ''Check   and http://example.com/y.'')))))))))
           = ''Check and http://example.com/y.''"
    by code_simp
  have q: "trim (replaceAll rx_blank_lines (\<lambda>w. [nl, nl]) None
            (replaceAll rx_blanks (\<lambda>w. '' '') None
            (replaceAll rx_newlines3 (\<lambda>w. [nl, nl]) None
            (replaceAll rx_header_line erase None
            (replaceAll rx_quote_line erase None
            (replaceAll rx_quoted_reply erase None
            (replaceAll rx_phone_line erase None
            (replaceAll rx_email_line erase None
            (replaceAll rx_bare_url erase None
            (replaceAll rx_wrapped_url erase None ''Check   and http://example.com/y.''))))))))))
           = ''Check and''"
    by code_simp
  show ?thesis
    by (simp add: stripHtml_def Let_def t assms p q)
qed

theorem stripHtml_loses_wrapped_url_witness:
  "decodeEntities plain_browser ''Check   and http://example.com/y.'' = ''Check   and http://example.com/y.''
   \<and> stripHtml plain_browser (Some ''Check <https://docs.google.com/x> and http://example.com/y.'') True
       = ''Check and http://example.com/y.''
   \<and> stripHtml plain_browser (Some ''Check <https://docs.google.com/x> and http://example.com/y.'') False
       = ''Check and''"
proof -
  have h: "decodeEntities plain_browser ''Check   and http://example.com/y.'' = ''Check   and http://example.com/y.''"
    by (simp add: plain_browser_def)
  from stripHtml_loses_wrapped_url [OF h] h show ?thesis by blast
qed

section \<open>A URL followed by punctuation\<close>


























end
